theory Spec2Isabelle
  imports Main "HOL-Library.Word" "HOL-Library.Sublist"
begin

section \<open>JavaScript strings and numbers\<close>

text \<open>
  A JavaScript string is a sequence of UTF-16 code units. \<open>ascii\<close> embeds an
  ASCII literal, so that \<open>ascii ''a:1: b''\<close> is the JavaScript string \<^verbatim>\<open>"a:1: b"\<close>.
\<close>

type_synonym code_unit = "16 word"
type_synonym jsstring = "code_unit list"

definition ascii :: "string \<Rightarrow> jsstring" where
  "ascii s = map of_char s"

definition colon :: code_unit where "colon = 0x3A"
definition space :: code_unit where "space = 0x20"
definition newline :: code_unit where "newline = 0x0A"

text \<open>ECMAScript \<^verbatim>\<open>LineTerminator\<close>: LF, CR, LS, PS. The regular expression atom
  \<^verbatim>\<open>.\<close> (no \<^verbatim>\<open>s\<close> flag) matches every code unit but these.\<close>

definition is_line_terminator :: "code_unit \<Rightarrow> bool" where
  "is_line_terminator u = (u = 0x0A \<or> u = 0x0D \<or> u = 0x2028 \<or> u = 0x2029)"

definition dot :: "code_unit \<Rightarrow> bool" where
  "dot u = (\<not> is_line_terminator u)"

text \<open>The code units \<^verbatim>\<open>String.prototype.trim\<close> strips: \<^verbatim>\<open>WhiteSpace\<close> and
  \<^verbatim>\<open>LineTerminator\<close>.\<close>

definition is_white_space :: "code_unit \<Rightarrow> bool" where
  "is_white_space u =
     (u = 0x09 \<or> u = 0x0B \<or> u = 0x0C \<or> u = 0x20 \<or> u = 0xA0 \<or> u = 0x1680
      \<or> (0x2000 \<le> u \<and> u \<le> 0x200A) \<or> u = 0x202F \<or> u = 0x205F \<or> u = 0x3000
      \<or> u = 0xFEFF \<or> is_line_terminator u)"

text \<open>The regular expression class \<^verbatim>\<open>\d\<close>: the ASCII digits only.\<close>

definition is_digit :: "code_unit \<Rightarrow> bool" where
  "is_digit u = (0x30 \<le> u \<and> u \<le> 0x39)"

definition trim :: "jsstring \<Rightarrow> jsstring" where
  "trim s = rev (dropWhile is_white_space (rev (dropWhile is_white_space s)))"

text \<open>\<^verbatim>\<open>s.split('\n')\<close>: the pieces between the line feeds; the empty string gives one
  empty piece, a trailing line feed a last empty piece.\<close>

fun split_newline :: "jsstring \<Rightarrow> jsstring list" where
  "split_newline [] = [[]]"
| "split_newline (u # s) =
     (if u = newline then [] # split_newline s
      else (case split_newline s of
              [] \<Rightarrow> [[u]]
            | l # ls \<Rightarrow> (u # l) # ls))"

text \<open>
  A JavaScript Number holding the result of \<^verbatim>\<open>parseInt\<close> on decimal digits: the
  mathematical value rounded to the nearest double (ties to even), \<open>Infinity\<close> beyond the
  double range, \<open>NaN\<close> when there is no digit. Every natural number below \<open>2 ^ 53\<close> is a
  double, so the rounding only shows on digit runs of sixteen digits and more.
\<close>

datatype jsnumber = Num nat | Infinity | NaN

fun bit_length :: "nat \<Rightarrow> nat" where
  "bit_length n = (if n = 0 then 0 else Suc (bit_length (n div 2)))"

definition to_number :: "nat \<Rightarrow> jsnumber" where
  "to_number n =
     (if n < 2 ^ 53 then Num n
      else let e = bit_length n - 53;
               q = n div 2 ^ e;
               r = n mod 2 ^ e;
               half = 2 ^ (e - 1);
               q' = (if half < r \<or> (r = half \<and> odd q) then q + 1 else q);
               v = q' * 2 ^ e
           in if 2 ^ 1024 \<le> v then Infinity else Num v)"

definition digit_value :: "code_unit \<Rightarrow> nat" where
  "digit_value u = unat u - 0x30"

definition decimal_value :: "jsstring \<Rightarrow> nat" where
  "decimal_value ds = foldl (\<lambda>acc u. 10 * acc + digit_value u) 0 ds"

text \<open>\<^verbatim>\<open>parseInt(s, 10)\<close> on a string that starts with a digit (the only strings the
  parser passes are matches of \<^verbatim>\<open>\d+\<close>): the value of the leading digits.\<close>

definition parseInt10 :: "jsstring \<Rightarrow> jsnumber" where
  "parseInt10 s =
     (let ds = takeWhile is_digit s
      in if ds = [] then NaN else to_number (decimal_value ds))"

section \<open>The diagnostic parser\<close>

text \<open>\<^verbatim>\<open>type ValidationError = { file: string; line: number; message: string }\<close>
  (\<open>file\<close> is a keyword of Isabelle, hence the prefix on the field names.)\<close>

record ValidationError =
  ve_file :: jsstring
  ve_line :: jsnumber
  ve_message :: jsstring

text \<open>The result type \<^verbatim>\<open>true | ValidationError[]\<close>.\<close>

datatype ValidationResult = Success | Errors "ValidationError list"

text \<open>
  \<^verbatim>\<open>line.match(/(.*):(\d+): (.*)/)\<close>, by the backtracking order of the matcher.
  \<open>after_digits\<close> matches \<^verbatim>\<open>: (.*)\<close>: the last group is greedy and nothing follows
  it, so it takes every code unit up to the first line terminator.
\<close>

fun after_digits :: "jsstring \<Rightarrow> jsstring option" where
  "after_digits (c1 # c2 # m) =
     (if c1 = colon \<and> c2 = space then Some (takeWhile dot m) else None)"
| "after_digits _ = None"

text \<open>\<^verbatim>\<open>(\d+): (.*)\<close> with the greedy \<^verbatim>\<open>\d+\<close> taking \<open>j\<close> digits of \<open>r\<close>, then
  fewer, down to one.\<close>

fun digits_from :: "nat \<Rightarrow> jsstring \<Rightarrow> (jsstring \<times> jsstring) option" where
  "digits_from 0 r = None"
| "digits_from (Suc j) r =
     (case after_digits (drop (Suc j) r) of
        Some m \<Rightarrow> Some (take (Suc j) r, m)
      | None \<Rightarrow> digits_from j r)"

text \<open>\<^verbatim>\<open>:(\d+): (.*)\<close> at the head of \<open>r\<close>.\<close>

fun marker_at :: "jsstring \<Rightarrow> (jsstring \<times> jsstring) option" where
  "marker_at [] = None"
| "marker_at (c # r) =
     (if c = colon then digits_from (length (takeWhile is_digit r)) r else None)"

text \<open>The whole pattern at the head of \<open>s\<close>, the greedy first group taking \<open>k\<close> code
  units, then fewer, down to none.\<close>

fun group1_from :: "nat \<Rightarrow> jsstring \<Rightarrow> (jsstring \<times> jsstring \<times> jsstring) option" where
  "group1_from k s =
     (case marker_at (drop k s) of
        Some (d, m) \<Rightarrow> Some (take k s, d, m)
      | None \<Rightarrow> (case k of 0 \<Rightarrow> None | Suc k' \<Rightarrow> group1_from k' s))"

definition match_here :: "jsstring \<Rightarrow> (jsstring \<times> jsstring \<times> jsstring) option" where
  "match_here s = group1_from (length (takeWhile dot s)) s"

text \<open>The pattern is not anchored: the match is tried at each start position, left to
  right, the end of the string included.\<close>

fun regex_match :: "jsstring \<Rightarrow> (jsstring \<times> jsstring \<times> jsstring) option" where
  "regex_match [] = match_here []"
| "regex_match (c # s) =
     (case match_here (c # s) of
        Some g \<Rightarrow> Some g
      | None \<Rightarrow> regex_match s)"

text \<open>The arrow function given to \<^verbatim>\<open>map\<close>.\<close>

definition parse_line :: "jsstring \<Rightarrow> ValidationError" where
  "parse_line l =
     (case regex_match l of
        Some (f, d, m) \<Rightarrow> \<lparr>ve_file = f, ve_line = parseInt10 d, ve_message = m\<rparr>
      | None \<Rightarrow> \<lparr>ve_file = [], ve_line = Num 0, ve_message = []\<rparr>)"

text \<open>The arrow function given to \<^verbatim>\<open>filter\<close>: \<^verbatim>\<open>errorObj.file && errorObj.message\<close>; a
  string is truthy when it is not empty.\<close>

definition keep :: "ValidationError \<Rightarrow> bool" where
  "keep errorObj = (ve_file errorObj \<noteq> [] \<and> ve_message errorObj \<noteq> [])"

text \<open>
  A marker \<^verbatim>\<open>:<digits>: \<close> of a diagnostic line, in the words of the specification: a
  colon, one decimal digit or more, a colon and a space. \<open>contains_marker\<close> holds when
  one starts somewhere in the string.
\<close>

definition starts_with_marker :: "jsstring \<Rightarrow> bool" where
  "starts_with_marker r =
     (case r of
        [] \<Rightarrow> False
      | c # r' \<Rightarrow> c = colon \<and> takeWhile is_digit r' \<noteq> []
                 \<and> take 2 (dropWhile is_digit r') = [colon, space])"

definition contains_marker :: "jsstring \<Rightarrow> bool" where
  "contains_marker s = list_ex starts_with_marker (suffixes s)"

text \<open>
  The error object handed to the parser has type \<^verbatim>\<open>any\<close>; the parser reads its
  \<^verbatim>\<open>stderr\<close> and \<^verbatim>\<open>message\<close> properties. \<^verbatim>\<open>stderr\<close> is absent, a string, or a Buffer
  (given here by its decoded text), and a Buffer is truthy even when it is empty.
\<close>

datatype stderr_prop = No_stderr | Stderr_string jsstring | Stderr_buffer jsstring

record error_obj =
  err_stderr :: stderr_prop
  err_message :: "jsstring option"

fun stderr_truthy :: "stderr_prop \<Rightarrow> bool" where
  "stderr_truthy No_stderr = False"
| "stderr_truthy (Stderr_string s) = (s \<noteq> [])"
| "stderr_truthy (Stderr_buffer s) = True"

fun stderr_toString :: "stderr_prop \<Rightarrow> jsstring" where
  "stderr_toString No_stderr = []"
| "stderr_toString (Stderr_string s) = s"
| "stderr_toString (Stderr_buffer s) = s"

fun message_truthy :: "jsstring option \<Rightarrow> bool" where
  "message_truthy None = False"
| "message_truthy (Some m) = (m \<noteq> [])"

text \<open>The value of the variable \<^verbatim>\<open>validationErrors\<close> after the three assignments
  (\<^verbatim>\<open>stderr || ''\<close>, then \<^verbatim>\<open>error.stderr\<close>, then \<^verbatim>\<open>error.message\<close>).\<close>

definition validationErrors :: "error_obj option \<Rightarrow> jsstring option \<Rightarrow> jsstring" where
  "validationErrors error stderr =
     (let v0 = (case stderr of None \<Rightarrow> [] | Some s \<Rightarrow> s);
          v1 = (case error of
                  None \<Rightarrow> v0
                | Some e \<Rightarrow> if stderr_truthy (err_stderr e) then stderr_toString (err_stderr e) else v0);
          v2 = (case error of
                  None \<Rightarrow> v1
                | Some e \<Rightarrow> if message_truthy (err_message e) then the (err_message e) else v1)
      in v2)"

definition parseValidationErrors :: "error_obj option \<Rightarrow> jsstring option \<Rightarrow> ValidationResult" where
  "parseValidationErrors error stderr =
     (let text = validationErrors error stderr
      in if trim text \<noteq> []
         then Errors (filter keep (map parse_line (split_newline (trim text))))
         else Success)"

section \<open>The validator and the world it runs in\<close>

text \<open>
  An input is \<^verbatim>\<open>string | Buffer\<close>: a path, or the raw content. The class
  \<^verbatim>\<open>XMLValidator\<close> holds one for the schema and one for the document.
\<close>

type_synonym bytes = "8 word list"

datatype input = Path jsstring | Buffer bytes

record XMLValidator =
  xsdPath :: input
  xmlPath :: input

text \<open>
  What running the command with \<^verbatim>\<open>exec\<close> or \<^verbatim>\<open>execSync\<close> can lead to: the
  subprocess exits with status zero, having written some text to its error stream; it
  exits otherwise, which both primitives report with an error object; or it could not be
  spawned, which they report with an error object too (\<^verbatim>\<open>execSync\<close> by throwing it,
  \<^verbatim>\<open>exec\<close> by passing it to its callback, as it does when the shell is missing or
  the process table is full). A call of \<^verbatim>\<open>exec\<close> that throws at once, on an argument
  it refuses, is not modelled.
\<close>

datatype invocation =
    Exit_zero jsstring
  | Exit_nonzero error_obj jsstring
  | Spawn_failed error_obj

text \<open>
  A \<^verbatim>\<open>writeFileSync\<close> that fails does so when it opens the file, and then nothing is
  created; or afterwards, when it writes the bytes (a full disk), and then the file has
  been created or truncated and is left empty.
\<close>

datatype write_failure = Open_failed error_obj | Write_failed error_obj

fun failure_error :: "write_failure \<Rightarrow> error_obj" where
  "failure_error (Open_failed e) = e"
| "failure_error (Write_failed e) = e"

text \<open>
  The host, as far as the validator reads it: the temporary directory, the value of each
  successive \<^verbatim>\<open>Date.now()\<close>, whether each successive \<^verbatim>\<open>writeFileSync\<close> fails (where, and
  with which error object), and what running a command leads to.
\<close>

record env =
  tmpdir :: jsstring
  now :: "nat \<Rightarrow> int"
  write_error :: "nat \<Rightarrow> write_failure option"
  run :: "jsstring \<Rightarrow> invocation"

text \<open>The state the validator changes: the files on disk, how many clock readings and
  writes have been made, and the command lines handed to the shell so far.\<close>

record world =
  files :: "jsstring \<rightharpoonup> bytes"
  clock_reads :: nat
  writes :: nat
  commands :: "jsstring list"

text \<open>\<^verbatim>\<open>Date.now()\<close>\<close>

definition date_now :: "env \<Rightarrow> world \<Rightarrow> int \<times> world" where
  "date_now E w = (now E (clock_reads w), w\<lparr>clock_reads := Suc (clock_reads w)\<rparr>)"

text \<open>The decimal digits of an integral Number, as a template literal prints it (a time
  value is far below \<open>10 ^ 21\<close>, where the exponent notation starts).\<close>

fun nat_digits :: "nat \<Rightarrow> jsstring" where
  "nat_digits n =
     (if n < 10 then [of_nat (48 + n)]
      else nat_digits (n div 10) @ [of_nat (48 + n mod 10)])"

definition number_toString :: "int \<Rightarrow> jsstring" where
  "number_toString i = (if i < 0 then 0x2D # nat_digits (nat (- i)) else nat_digits (nat i))"

text \<open>\<^verbatim>\<open>writeFileSync(filePath, buffer)\<close>: throws the error the host decides on, leaving
  an empty file when the failure comes after the file is opened, or creates the file,
  replacing one that is already there.\<close>

definition writeFileSync :: "env \<Rightarrow> jsstring \<Rightarrow> bytes \<Rightarrow> world \<Rightarrow> (error_obj + unit) \<times> world" where
  "writeFileSync E filePath buffer w =
     (case write_error E (writes w) of
        Some (Open_failed e) \<Rightarrow> (Inl e, w\<lparr>writes := Suc (writes w)\<rparr>)
      | Some (Write_failed e) \<Rightarrow>
          (Inl e, w\<lparr>files := (files w)(filePath \<mapsto> []), writes := Suc (writes w)\<rparr>)
      | None \<Rightarrow> (Inr (), w\<lparr>files := (files w)(filePath \<mapsto> buffer), writes := Suc (writes w)\<rparr>))"

text \<open>\<^verbatim>\<open>unlinkSync(path)\<close>: throws \<^verbatim>\<open>ENOENT\<close> when there is no such file (the one failure
  of a deletion that is modelled).\<close>

definition enoent :: "jsstring \<Rightarrow> error_obj" where
  "enoent path =
     \<lparr>err_stderr = No_stderr,
      err_message = Some (ascii ''ENOENT: no such file or directory, unlink '' @ [0x27] @ path @ [0x27])\<rparr>"

definition unlinkSync :: "jsstring \<Rightarrow> world \<Rightarrow> (error_obj + unit) \<times> world" where
  "unlinkSync path w =
     (if path \<in> dom (files w) then (Inr (), w\<lparr>files := (files w)(path := None)\<rparr>)
      else (Inl (enoent path), w))"

definition writeTempFile :: "env \<Rightarrow> bytes \<Rightarrow> world \<Rightarrow> (error_obj + jsstring) \<times> world" where
  "writeTempFile E buffer w =
     (let tmpDir = tmpdir E;
          (t, w1) = date_now E w;
          filePath = tmpDir @ ascii ''/'' @ number_toString t
      in case writeFileSync E filePath buffer w1 of
           (Inl e, w2) \<Rightarrow> (Inl e, w2)
         | (Inr _, w2) \<Rightarrow> (Inr filePath, w2))"

text \<open>One operand of \<^verbatim>\<open>getTempPaths\<close>:
  \<^verbatim>\<open>p instanceof Buffer ? this.writeTempFile(p) : p\<close>\<close>

definition materialize :: "env \<Rightarrow> input \<Rightarrow> world \<Rightarrow> (error_obj + jsstring) \<times> world" where
  "materialize E p w = (case p of Buffer b \<Rightarrow> writeTempFile E b w | Path s \<Rightarrow> (Inr s, w))"

definition getTempPaths ::
  "env \<Rightarrow> XMLValidator \<Rightarrow> world \<Rightarrow> (error_obj + jsstring \<times> jsstring) \<times> world" where
  "getTempPaths E this w =
     (case materialize E (xsdPath this) w of
        (Inl e, w1) \<Rightarrow> (Inl e, w1)
      | (Inr tempXsdPath, w1) \<Rightarrow>
          (case materialize E (xmlPath this) w1 of
             (Inl e, w2) \<Rightarrow> (Inl e, w2)
           | (Inr tempXmlPath, w2) \<Rightarrow> (Inr (tempXsdPath, tempXmlPath), w2)))"

text \<open>\<^verbatim>\<open>p instanceof Buffer\<close>\<close>

definition is_Buffer :: "input \<Rightarrow> bool" where
  "is_Buffer p = (case p of Buffer _ \<Rightarrow> True | Path _ \<Rightarrow> False)"

definition cleanupTempFiles ::
  "XMLValidator \<Rightarrow> jsstring \<Rightarrow> jsstring \<Rightarrow> world \<Rightarrow> (error_obj + unit) \<times> world" where
  "cleanupTempFiles this tempXsdPath tempXmlPath w =
     (case (if is_Buffer (xsdPath this) then unlinkSync tempXsdPath w else (Inr (), w)) of
        (Inl e, w1) \<Rightarrow> (Inl e, w1)
      | (Inr _, w1) \<Rightarrow>
          (if is_Buffer (xmlPath this) then unlinkSync tempXmlPath w1 else (Inr (), w1)))"

text \<open>The template literal
  \<^verbatim>\<open>`xmllint --noout --schema ${tempXsdPath} ${tempXmlPath}`\<close>\<close>

definition command :: "jsstring \<Rightarrow> jsstring \<Rightarrow> jsstring" where
  "command tempXsdPath tempXmlPath =
     ascii ''xmllint --noout --schema '' @ tempXsdPath @ ascii '' '' @ tempXmlPath"

text \<open>Both primitives hand the command line to the shell. \<^verbatim>\<open>execSync\<close> returns on
  exit status zero and throws the error object otherwise (\<open>Some\<close> is the thrown error);
  \<^verbatim>\<open>exec\<close> calls back with the error object (or \<^verbatim>\<open>null\<close>) and the captured error
  stream.\<close>

definition execSync :: "env \<Rightarrow> jsstring \<Rightarrow> world \<Rightarrow> error_obj option \<times> world" where
  "execSync E cmd w =
     ((case run E cmd of
         Exit_zero s \<Rightarrow> None
       | Exit_nonzero e s \<Rightarrow> Some e
       | Spawn_failed e \<Rightarrow> Some e),
      w\<lparr>commands := commands w @ [cmd]\<rparr>)"

definition exec :: "env \<Rightarrow> jsstring \<Rightarrow> world \<Rightarrow> (error_obj option \<times> jsstring) \<times> world" where
  "exec E cmd w =
     ((case run E cmd of
         Exit_zero s \<Rightarrow> (None, s)
       | Exit_nonzero e s \<Rightarrow> (Some e, s)
       | Spawn_failed e \<Rightarrow> (Some e, [])),
      w\<lparr>commands := commands w @ [cmd]\<rparr>)"

text \<open>The \<^verbatim>\<open>catch (error)\<close> block of \<^verbatim>\<open>validateSync\<close>.\<close>

definition validateSync_catch ::
  "XMLValidator \<Rightarrow> jsstring \<Rightarrow> jsstring \<Rightarrow> error_obj \<Rightarrow> world \<Rightarrow> (error_obj + ValidationResult) \<times> world" where
  "validateSync_catch this tempXsdPath tempXmlPath error w =
     (case cleanupTempFiles this tempXsdPath tempXmlPath w of
        (Inl e, w1) \<Rightarrow> (Inl e, w1)
      | (Inr _, w1) \<Rightarrow> (Inr (parseValidationErrors (Some error) None), w1))"

text \<open>\<^verbatim>\<open>validateSync\<close>: \<open>Inl\<close> is a thrown error. An error thrown in the \<^verbatim>\<open>try\<close> block,
  by \<^verbatim>\<open>execSync\<close> or by the cleanup after it, is caught by the \<^verbatim>\<open>catch\<close> block.\<close>

definition validateSync :: "env \<Rightarrow> XMLValidator \<Rightarrow> world \<Rightarrow> (error_obj + ValidationResult) \<times> world" where
  "validateSync E this w =
     (case getTempPaths E this w of
        (Inl e, w1) \<Rightarrow> (Inl e, w1)
      | (Inr (tempXsdPath, tempXmlPath), w1) \<Rightarrow>
          (case execSync E (command tempXsdPath tempXmlPath) w1 of
             (Some error, w2) \<Rightarrow> validateSync_catch this tempXsdPath tempXmlPath error w2
           | (None, w2) \<Rightarrow>
               (case cleanupTempFiles this tempXsdPath tempXmlPath w2 of
                  (Inl error, w3) \<Rightarrow> validateSync_catch this tempXsdPath tempXmlPath error w3
                | (Inr _, w3) \<Rightarrow> (Inr Success, w3))))"

text \<open>
  \<^verbatim>\<open>validate\<close> returns a promise. An error thrown by the executor (by
  \<^verbatim>\<open>getTempPaths\<close>) rejects it; the callback of \<^verbatim>\<open>exec\<close> resolves it, unless the cleanup
  throws there, and then it is never settled. The callback is taken to run on the world
  the executor left.
\<close>

datatype promise = Resolved ValidationResult | Rejected error_obj | Never_settled error_obj

definition validate :: "env \<Rightarrow> XMLValidator \<Rightarrow> world \<Rightarrow> promise \<times> world" where
  "validate E this w =
     (case getTempPaths E this w of
        (Inl e, w1) \<Rightarrow> (Rejected e, w1)
      | (Inr (tempXsdPath, tempXmlPath), w1) \<Rightarrow>
          (case exec E (command tempXsdPath tempXmlPath) w1 of
             ((error, stderr), w2) \<Rightarrow>
               (case cleanupTempFiles this tempXsdPath tempXmlPath w2 of
                  (Inl e, w3) \<Rightarrow> (Never_settled e, w3)
                | (Inr _, w3) \<Rightarrow> (Resolved (parseValidationErrors error (Some stderr)), w3))))"

text \<open>
  The error of the first \<^verbatim>\<open>writeFileSync\<close> that fails among those a call makes (one for
  each raw-content input, the schema first), if one does: the host's answer to the
  first write, and to the second only when the first went through.
\<close>

definition first_write_failure :: "env \<Rightarrow> XMLValidator \<Rightarrow> world \<Rightarrow> error_obj option" where
  "first_write_failure E this w =
     (if is_Buffer (xsdPath this)
      then (case write_error E (writes w) of
              Some f \<Rightarrow> Some (failure_error f)
            | None \<Rightarrow>
                if is_Buffer (xmlPath this)
                then map_option failure_error (write_error E (Suc (writes w)))
                else None)
      else if is_Buffer (xmlPath this)
           then map_option failure_error (write_error E (writes w))
           else None)"

text \<open>The characters with which a POSIX shell quotes or escapes: the double quote, the
  single quote and the backslash.\<close>

definition is_quoting :: "code_unit \<Rightarrow> bool" where
  "is_quoting u = (u = 0x22 \<or> u = 0x27 \<or> u = 0x5C)"

text \<open>The bytes of an ASCII literal, for the content of a Buffer.\<close>

definition ascii_bytes :: "string \<Rightarrow> bytes" where
  "ascii_bytes s = map of_char s"

text \<open>A world with no file, before any clock reading, write or command.\<close>

definition fresh_world :: world where
  "fresh_world = \<lparr>files = Map.empty, clock_reads = 0, writes = 0, commands = []\<rparr>"

text \<open>
  A host for the examples: the temporary directory is \<^verbatim>\<open>/tmp\<close>, the clock advances by
  one millisecond at each reading, every write goes through, and every command leads to
  the given outcome.
\<close>

definition steady_host :: "invocation \<Rightarrow> env" where
  "steady_host outcome =
     \<lparr>tmpdir = ascii ''/tmp'',
      now = (\<lambda>k. 1700000000000 + int k),
      write_error = (\<lambda>k. None),
      run = (\<lambda>cmd. outcome)\<rparr>"

text \<open>The error object of a full disk, the one of a shell that cannot be spawned, and the
  one \<^verbatim>\<open>execSync\<close> throws when the command exits with a non-zero status and has written
  nothing to its error stream.\<close>

definition enospc :: error_obj where
  "enospc = \<lparr>err_stderr = No_stderr,
             err_message = Some (ascii ''ENOSPC: no space left on device, write'')\<rparr>"

definition spawn_enoent :: error_obj where
  "spawn_enoent = \<lparr>err_stderr = No_stderr, err_message = Some (ascii ''spawn /bin/sh ENOENT'')\<rparr>"

definition command_failed_sync :: error_obj where
  "command_failed_sync =
     \<lparr>err_stderr = Stderr_buffer [],
      err_message = Some (ascii ''Command failed: xmllint --noout --schema schema.xsd doc.xml'')\<rparr>"

text \<open>The one \<^verbatim>\<open>exec\<close> passes to its callback then: the message ends with a line feed
  and the captured error stream, which is empty.\<close>

definition command_failed_async :: error_obj where
  "command_failed_async =
     \<lparr>err_stderr = No_stderr,
      err_message =
        Some (ascii ''Command failed: xmllint --noout --schema schema.xsd doc.xml'' @ [newline])\<rparr>"

text \<open>A validator on two paths, one on two Buffers, and a host like \<open>steady_host\<close> but
  for its clock, which gives the same millisecond at every reading.\<close>

definition two_paths :: XMLValidator where
  "two_paths = \<lparr>xsdPath = Path (ascii ''schema.xsd''), xmlPath = Path (ascii ''doc.xml'')\<rparr>"

definition two_buffers :: XMLValidator where
  "two_buffers =
     \<lparr>xsdPath = Buffer (ascii_bytes ''<schema/>''), xmlPath = Buffer (ascii_bytes ''<doc/>'')\<rparr>"

definition same_millisecond_host :: "invocation \<Rightarrow> env" where
  "same_millisecond_host outcome = (steady_host outcome)\<lparr>now := (\<lambda>k. 1700000000000)\<rparr>"

section \<open>Evaluating the definitions\<close>

lemmas string_defs = ascii_def colon_def space_def newline_def is_line_terminator_def dot_def
  is_white_space_def is_digit_def trim_def
lemmas number_defs = to_number_def digit_value_def decimal_value_def parseInt10_def
lemmas marker_defs = starts_with_marker_def contains_marker_def
lemmas parser_defs = match_here_def parse_line_def keep_def validationErrors_def
  parseValidationErrors_def
lemmas world_defs = date_now_def number_toString_def writeFileSync_def enoent_def unlinkSync_def
  writeTempFile_def materialize_def getTempPaths_def is_Buffer_def cleanupTempFiles_def
  command_def execSync_def exec_def validateSync_catch_def validateSync_def validate_def
  fresh_world_def ascii_bytes_def steady_host_def Let_def
lemmas example_defs = enospc_def spawn_enoent_def command_failed_sync_def
  command_failed_async_def two_paths_def two_buffers_def same_millisecond_host_def

section \<open>The diagnostic parser: text selection\<close>

lemma trim_Nil_iff: "trim t = [] \<longleftrightarrow> (\<forall>u\<in>set t. is_white_space u)"
proof
  assume "trim t = []"
  then have "\<forall>u\<in>set (dropWhile is_white_space t). is_white_space u"
    by (simp add: trim_def)
  then have "dropWhile is_white_space t = []"
    by (metis hd_dropWhile list.set_sel(1))
  then show "\<forall>u\<in>set t. is_white_space u"
    by simp
next
  assume "\<forall>u\<in>set t. is_white_space u"
  then show "trim t = []" by (auto simp: trim_def dest: set_dropWhileD)
qed

text \<open>
  Claim C2, as the code has it. The message of the error object comes first: when the
  error object has a non-empty message, that message is the text parsed, whatever its
  \<^verbatim>\<open>stderr\<close> holds. The \<^verbatim>\<open>stderr\<close> of the error object is parsed when the message is
  absent or empty and \<^verbatim>\<open>stderr\<close> is truthy. The captured error stream given as second
  argument is parsed when there is no error object, or when the error object has neither.
\<close>

theorem message_takes_precedence:
  "(err_message e = Some m \<and> m \<noteq> [] \<longrightarrow> validationErrors (Some e) stderr = m)
   \<and> (\<not> message_truthy (err_message e) \<and> stderr_truthy (err_stderr e) \<longrightarrow>
        validationErrors (Some e) stderr = stderr_toString (err_stderr e))
   \<and> (\<not> message_truthy (err_message e) \<and> \<not> stderr_truthy (err_stderr e) \<longrightarrow>
        validationErrors (Some e) stderr = (case stderr of None \<Rightarrow> [] | Some s \<Rightarrow> s))
   \<and> validationErrors None stderr = (case stderr of None \<Rightarrow> [] | Some s \<Rightarrow> s)"
  by (auto simp: validationErrors_def)

text \<open>Claim C2 as amended, at three error objects: one with both properties, one with a
  \<^verbatim>\<open>stderr\<close> Buffer only, one with neither.\<close>

theorem message_takes_precedence_witness:
  "validationErrors
     (Some \<lparr>err_stderr = Stderr_string (ascii ''a.xml:1: from stderr''),
            err_message = Some (ascii ''b.xml:2: from message'')\<rparr>) (Some (ascii ''raw''))
     = ascii ''b.xml:2: from message''
   \<and> validationErrors
     (Some \<lparr>err_stderr = Stderr_buffer (ascii ''a.xml:1: from stderr''), err_message = None\<rparr>)
     (Some (ascii ''raw'')) = ascii ''a.xml:1: from stderr''
   \<and> validationErrors (Some \<lparr>err_stderr = No_stderr, err_message = Some []\<rparr>)
     (Some (ascii ''raw'')) = ascii ''raw''"
  using
    message_takes_precedence [of
      "\<lparr>err_stderr = Stderr_string (ascii ''a.xml:1: from stderr''),
        err_message = Some (ascii ''b.xml:2: from message'')\<rparr>"
      "ascii ''b.xml:2: from message''" "Some (ascii ''raw'')"]
    message_takes_precedence [of
      "\<lparr>err_stderr = Stderr_buffer (ascii ''a.xml:1: from stderr''), err_message = None\<rparr>"
      "[]" "Some (ascii ''raw'')"]
    message_takes_precedence [of
      "\<lparr>err_stderr = No_stderr, err_message = Some []\<rparr>" "[]" "Some (ascii ''raw'')"]
  by (simp add: ascii_def)

text \<open>
  Claim C2 as stated fails: an error object that carries the \<^verbatim>\<open>stderr\<close> text
  \<^verbatim>\<open>a.xml:1: from stderr\<close> and the message \<^verbatim>\<open>b.xml:2: from message\<close> has its message
  parsed, not its \<^verbatim>\<open>stderr\<close>.
\<close>

theorem stderr_overridden_by_message:
  "validationErrors
     (Some \<lparr>err_stderr = Stderr_string (ascii ''a.xml:1: from stderr''),
            err_message = Some (ascii ''b.xml:2: from message'')\<rparr>) None
     = ascii ''b.xml:2: from message''
   \<and> parseValidationErrors
     (Some \<lparr>err_stderr = Stderr_string (ascii ''a.xml:1: from stderr''),
            err_message = Some (ascii ''b.xml:2: from message'')\<rparr>) None
     = Errors [\<lparr>ve_file = ascii ''b.xml'', ve_line = Num 2, ve_message = ascii ''from message''\<rparr>]"
  by (simp add: string_defs number_defs parser_defs)

section \<open>The diagnostic parser: filtering and order\<close>

text \<open>
  Claim C1, as the code has it. When the selected text is not blank, the parser returns a
  list, and the record parsed from a line is in that list exactly when both its file and
  its message are non-empty: a record with an empty file or an empty message is
  discarded.
\<close>

theorem kept_iff_file_and_message:
  assumes "trim (validationErrors error stderr) \<noteq> []"
  shows "\<exists>errors. parseValidationErrors error stderr = Errors errors
           \<and> (\<forall>l\<in>set (split_newline (trim (validationErrors error stderr))).
                 parse_line l \<in> set errors
                 \<longleftrightarrow> ve_file (parse_line l) \<noteq> [] \<and> ve_message (parse_line l) \<noteq> [])"
  using assms by (auto simp: parseValidationErrors_def keep_def)

text \<open>Claim C1 as amended, at the two lines \<^verbatim>\<open>a.xml:3: bad\<close> and \<^verbatim>\<open>:12: oops\<close>.\<close>

theorem kept_iff_file_and_message_witness:
  "trim (validationErrors None (Some (ascii ''a.xml:3: bad'' @ newline # ascii '':12: oops''))) \<noteq> []
   \<and> (\<exists>errors. parseValidationErrors None
           (Some (ascii ''a.xml:3: bad'' @ newline # ascii '':12: oops'')) = Errors errors
         \<and> (\<forall>l\<in>set (split_newline (trim (validationErrors None
                 (Some (ascii ''a.xml:3: bad'' @ newline # ascii '':12: oops''))))).
               parse_line l \<in> set errors
               \<longleftrightarrow> ve_file (parse_line l) \<noteq> [] \<and> ve_message (parse_line l) \<noteq> []))"
proof -
  have h: "trim (validationErrors None
             (Some (ascii ''a.xml:3: bad'' @ newline # ascii '':12: oops''))) \<noteq> []"
    by (simp add: string_defs validationErrors_def)
  show ?thesis using h kept_iff_file_and_message [OF h] by (rule conjI)
qed

text \<open>
  Claim C1 as stated fails: the line \<^verbatim>\<open>:12: oops\<close> is parsed into a record with an
  empty file, line 12 and the non-empty message \<^verbatim>\<open>oops\<close>, and the filter discards it.
\<close>

theorem record_with_message_discarded:
  "parse_line (ascii '':12: oops'')
     = \<lparr>ve_file = [], ve_line = Num 12, ve_message = ascii ''oops''\<rparr>
   \<and> ve_message (parse_line (ascii '':12: oops'')) \<noteq> []
   \<and> parseValidationErrors None (Some (ascii '':12: oops'')) = Errors []"
  by (simp add: string_defs number_defs parser_defs)

text \<open>
  Claim C9. The text that reaches the splitting and the filtering is the one that is not
  blank (empty or white space only, which gives the success marker before any line is
  looked at). On such a text the parser returns a list, which is never the success
  marker; the list is the records parsed from the lines that have a file and a message,
  in the order of the lines and with no other record; and it is empty when every line
  gives a record with an empty file or an empty message.
\<close>

theorem unusable_lines_give_empty_list:
  assumes "trim (validationErrors error stderr) \<noteq> []"
  shows "\<exists>errors. parseValidationErrors error stderr = Errors errors
           \<and> Errors errors \<noteq> Success
           \<and> errors = filter keep (map parse_line
                 (split_newline (trim (validationErrors error stderr))))
           \<and> subseq errors (map parse_line (split_newline (trim (validationErrors error stderr))))
           \<and> ((\<forall>l\<in>set (split_newline (trim (validationErrors error stderr))).
                  ve_file (parse_line l) = [] \<or> ve_message (parse_line l) = [])
                \<longrightarrow> errors = [])"
  using assms by (auto simp: parseValidationErrors_def keep_def filter_empty_conv)

text \<open>Claim C9 at the text \<^verbatim>\<open>WARNING: something unrelated\<close>.\<close>

theorem unusable_lines_give_empty_list_witness:
  "trim (validationErrors None (Some (ascii ''WARNING: something unrelated''))) \<noteq> []
   \<and> list_all (\<lambda>l. ve_file (parse_line l) = [] \<or> ve_message (parse_line l) = [])
         (split_newline (trim (validationErrors None
           (Some (ascii ''WARNING: something unrelated'')))))
   \<and> parseValidationErrors None (Some (ascii ''WARNING: something unrelated'')) = Errors []"
proof -
  have h: "trim (validationErrors None (Some (ascii ''WARNING: something unrelated''))) \<noteq> []"
    by (simp add: string_defs validationErrors_def)
  have u: "\<forall>l\<in>set (split_newline (trim (validationErrors None
               (Some (ascii ''WARNING: something unrelated''))))).
             ve_file (parse_line l) = [] \<or> ve_message (parse_line l) = []"
    by (simp add: string_defs number_defs parser_defs)
  from unusable_lines_give_empty_list [OF h]
  obtain errors where
    "parseValidationErrors None (Some (ascii ''WARNING: something unrelated'')) = Errors errors"
    and "(\<forall>l\<in>set (split_newline (trim (validationErrors None
               (Some (ascii ''WARNING: something unrelated''))))).
             ve_file (parse_line l) = [] \<or> ve_message (parse_line l) = [])
          \<longrightarrow> errors = []"
    by (elim exE conjE)
  with u
  have "parseValidationErrors None (Some (ascii ''WARNING: something unrelated'')) = Errors []"
    by (simp only: simp_thms)
  with h u show ?thesis by (simp add: list_all_iff)
qed

section \<open>The diagnostic parser: where a line is split\<close>

lemma colon_not_digit: "\<not> is_digit colon" by (simp add: is_digit_def colon_def)
lemma space_not_digit: "\<not> is_digit space" by (simp add: is_digit_def space_def)
lemma space_not_colon: "space \<noteq> colon" by (simp add: colon_def space_def)

lemma digits_from_short:
  "j < length (takeWhile is_digit r) \<Longrightarrow> digits_from j r = None"
proof (induction j)
  case 0
  then show ?case by simp
next
  case (Suc j)
  let ?n = "length (takeWhile is_digit r)"
  from Suc.prems have lt: "Suc j < ?n" .
  have len: "?n \<le> length r" by (rule length_takeWhile_le)
  have "r ! Suc j = takeWhile is_digit r ! Suc j" using lt by (simp add: takeWhile_nth)
  moreover have "takeWhile is_digit r ! Suc j \<in> set (takeWhile is_digit r)" using lt by simp
  ultimately have dig: "is_digit (r ! Suc j)" by (auto dest: set_takeWhileD)
  have "drop (Suc j) r = r ! Suc j # drop (Suc (Suc j)) r"
    using lt len by (simp add: Cons_nth_drop_Suc)
  then have "after_digits (drop (Suc j) r) = None"
    using dig colon_not_digit by (cases "drop (Suc (Suc j)) r") auto
  moreover have "digits_from j r = None" using Suc by simp
  ultimately show ?case by simp
qed

lemma digits_from_all:
  "digits_from (length (takeWhile is_digit r)) r =
     (if takeWhile is_digit r = [] then None
      else map_option (\<lambda>m. (takeWhile is_digit r, m)) (after_digits (dropWhile is_digit r)))"
proof (cases "length (takeWhile is_digit r)")
  case 0
  then show ?thesis by simp
next
  case (Suc j)
  have t: "take (length (takeWhile is_digit r)) r = takeWhile is_digit r"
    by (metis append_eq_conv_conj takeWhile_dropWhile_id)
  have d: "drop (length (takeWhile is_digit r)) r = dropWhile is_digit r"
    by (metis append_eq_conv_conj takeWhile_dropWhile_id)
  have "digits_from j r = None" using Suc by (simp add: digits_from_short)
  then show ?thesis using Suc t d
    by (auto simp del: takeWhile_eq_take split: option.splits)
qed

lemma after_digits_None: "take 2 r \<noteq> [colon, space] \<Longrightarrow> after_digits r = None"
  by (cases r rule: after_digits.cases) auto

lemma marker_at_None: "\<not> starts_with_marker r \<Longrightarrow> marker_at r = None"
proof (cases r)
  case Nil
  then show ?thesis by simp
next
  case (Cons c r')
  assume n: "\<not> starts_with_marker r"
  show ?thesis
  proof (cases "c = colon \<and> takeWhile is_digit r' \<noteq> []")
    case False
    then show ?thesis using Cons by (auto simp: digits_from_all)
  next
    case True
    with n Cons have "take 2 (dropWhile is_digit r') \<noteq> [colon, space]"
      by (simp add: starts_with_marker_def)
    then have "after_digits (dropWhile is_digit r') = None"
      by (rule after_digits_None)
    then show ?thesis using Cons True by (simp add: digits_from_all)
  qed
qed

lemma marker_at_marker:
  assumes "ds \<noteq> []" "\<forall>u\<in>set ds. is_digit u"
  shows "marker_at (colon # ds @ colon # space # m) = Some (ds, takeWhile dot m)"
proof -
  have t: "takeWhile is_digit (ds @ colon # space # m) = ds"
    using assms colon_not_digit by (simp add: takeWhile_append2)
  have d: "dropWhile is_digit (ds @ colon # space # m) = colon # space # m"
    using assms colon_not_digit by (simp add: dropWhile_append2)
  have "digits_from (length ds) (ds @ colon # space # m) = Some (ds, takeWhile dot m)"
    using digits_from_all [of "ds @ colon # space # m"] assms(1) unfolding t d by simp
  then show ?thesis by (simp add: t)
qed

lemma no_marker_in_suffix:
  assumes "\<not> contains_marker m" "suffix q m"
  shows "marker_at q = None"
proof -
  have "\<not> starts_with_marker q"
    using assms by (auto simp: contains_marker_def list_ex_iff)
  then show ?thesis by (rule marker_at_None)
qed

lemma marker_tail_no_marker:
  assumes ds: "\<forall>u\<in>set ds. is_digit u"
    and m: "\<not> contains_marker m"
    and split: "colon # ds @ colon # space # m = p @ q" "p \<noteq> []"
  shows "marker_at q = None"
proof -
  from split obtain p' where "ds @ colon # space # m = p' @ q"
    by (cases p) auto
  then have "suffix q (ds @ colon # space # m)" by (auto simp: suffix_def)
  then consider (m) "suffix q m" | (sp) "q = space # m" | (co) "q = colon # space # m"
    | (ds) ds' where "suffix ds' ds" "ds' \<noteq> []" "q = ds' @ colon # space # m"
    by (auto simp: suffix_append suffix_Cons)
  then show ?thesis
  proof cases
    case m
    then show ?thesis using assms(2) by (simp add: no_marker_in_suffix)
  next
    case sp
    then show ?thesis by (simp add: space_not_colon)
  next
    case co
    then show ?thesis by (simp add: space_not_digit)
  next
    case ds
    then obtain u us where "ds' = u # us" by (cases ds') auto
    moreover have "u \<in> set ds" using ds(1) \<open>ds' = u # us\<close> by (auto simp: suffix_def)
    then have "u \<noteq> colon" using assms(1) colon_not_digit by auto
    ultimately show ?thesis using ds(3) by simp
  qed
qed

lemma group1_from_split:
  assumes "marker_at t = Some (d, m)"
    and "\<And>p q. t = p @ q \<Longrightarrow> p \<noteq> [] \<Longrightarrow> marker_at q = None"
  shows "t = p @ q \<Longrightarrow> group1_from (length f + length p) (f @ t) = Some (f, d, m)"
proof (induction p arbitrary: q rule: rev_induct)
  case Nil
  then show ?case using assms(1) by (subst group1_from.simps) simp
next
  case (snoc x p)
  have "marker_at q = None" using assms(2) [of "p @ [x]" q] snoc.prems by simp
  moreover have "group1_from (length f + length p) (f @ t) = Some (f, d, m)"
    using snoc.IH [of "x # q"] snoc.prems by simp
  moreover have "drop (length f + length (p @ [x])) (f @ t) = q"
    using snoc.prems by simp
  ultimately show ?case by (subst group1_from.simps) simp
qed

lemma regex_match_last_marker:
  assumes l: "l = f @ colon # ds @ colon # space # m"
    and ds: "ds \<noteq> []" "\<forall>u\<in>set ds. is_digit u"
    and m: "\<not> contains_marker m"
    and lt: "\<forall>u\<in>set l. \<not> is_line_terminator u"
  shows "regex_match l = Some (f, ds, m)"
proof -
  let ?t = "colon # ds @ colon # space # m"
  have dots: "takeWhile dot l = l" using lt by (simp add: dot_def)
  have msg: "takeWhile dot m = m" using lt l by (simp add: dot_def)
  have here: "marker_at ?t = Some (ds, m)"
    using marker_at_marker [OF ds, of m] msg by simp
  have "group1_from (length f + length ?t) (f @ ?t) = Some (f, ds, m)"
  proof (rule group1_from_split [OF here])
    show "marker_at q = None" if "?t = p @ q" "p \<noteq> []" for p q
      using that by (rule marker_tail_no_marker [OF ds(2) m])
    show "?t = ?t @ []" by simp
  qed
  moreover have "match_here l = group1_from (length l) l"
    by (simp only: match_here_def dots)
  moreover have "length l = length f + length ?t" "l = f @ ?t"
    using l by simp_all
  ultimately have "match_here l = Some (f, ds, m)" by simp
  moreover have "l \<noteq> []" using l by simp
  ultimately show ?thesis by (cases l) simp_all
qed

text \<open>
  Claim C3, as the code has it. The first group of the pattern is greedy, so a line is
  split at its last marker: when a line without line terminator is a prefix \<open>f\<close>, a
  marker with the digits \<open>ds\<close> and a remainder \<open>m\<close> in which no marker starts, the file
  is \<open>f\<close> (with every earlier marker inside it), the line number is the value of \<open>ds\<close>
  and the message is \<open>m\<close>.
\<close>

theorem last_marker_splits_the_line:
  assumes "l = f @ colon # ds @ colon # space # m"
    and "ds \<noteq> []" and "\<forall>u\<in>set ds. is_digit u"
    and "\<not> contains_marker m"
    and "\<forall>u\<in>set l. \<not> is_line_terminator u"
  shows "parse_line l = \<lparr>ve_file = f, ve_line = parseInt10 ds, ve_message = m\<rparr>"
  using regex_match_last_marker [OF assms] by (simp add: parse_line_def)

text \<open>Claim C3 as amended, at the line \<^verbatim>\<open>a.xml:1: b.xml:2: bad\<close>, which has two
  markers.\<close>

theorem last_marker_splits_the_line_witness:
  "ascii ''a.xml:1: b.xml:2: bad''
     = ascii ''a.xml:1: b.xml'' @ colon # ascii ''2'' @ colon # space # ascii ''bad''
   \<and> ascii ''2'' \<noteq> [] \<and> list_all is_digit (ascii ''2'')
   \<and> \<not> contains_marker (ascii ''bad'')
   \<and> list_all (\<lambda>u. \<not> is_line_terminator u) (ascii ''a.xml:1: b.xml:2: bad'')
   \<and> contains_marker (ascii ''a.xml:1: b.xml'')
   \<and> parse_line (ascii ''a.xml:1: b.xml:2: bad'')
       = \<lparr>ve_file = ascii ''a.xml:1: b.xml'', ve_line = Num 2, ve_message = ascii ''bad''\<rparr>"
proof -
  have 1: "ascii ''a.xml:1: b.xml:2: bad''
     = ascii ''a.xml:1: b.xml'' @ colon # ascii ''2'' @ colon # space # ascii ''bad''"
    by (simp add: string_defs)
  have 2: "ascii ''2'' \<noteq> []" by (simp add: string_defs)
  have 3: "\<forall>u\<in>set (ascii ''2''). is_digit u" by (simp add: string_defs)
  have 4: "\<not> contains_marker (ascii ''bad'')" by (simp add: string_defs marker_defs)
  have 5: "\<forall>u\<in>set (ascii ''a.xml:1: b.xml:2: bad''). \<not> is_line_terminator u"
    by (simp add: string_defs)
  have 6: "contains_marker (ascii ''a.xml:1: b.xml'')" by (simp add: string_defs marker_defs)
  have 7: "parseInt10 (ascii ''2'') = Num 2" by (simp add: string_defs number_defs)
  show ?thesis
    using 1 2 3 4 5 6 last_marker_splits_the_line [OF 1 2 3 4 5]
    by (simp only: 7 list_all_iff simp_thms)
qed

text \<open>
  Claim C3 as stated fails: on the line \<^verbatim>\<open>a.xml:1: b.xml:2: bad\<close> the first marker
  would give the file \<^verbatim>\<open>a.xml\<close>, line 1 and the message \<^verbatim>\<open>b.xml:2: bad\<close>; the parser
  gives the file \<^verbatim>\<open>a.xml:1: b.xml\<close>, line 2 and the message \<^verbatim>\<open>bad\<close>.
\<close>

theorem first_marker_not_used:
  "parse_line (ascii ''a.xml:1: b.xml:2: bad'')
     = \<lparr>ve_file = ascii ''a.xml:1: b.xml'', ve_line = Num 2, ve_message = ascii ''bad''\<rparr>
   \<and> parse_line (ascii ''a.xml:1: b.xml:2: bad'')
     \<noteq> \<lparr>ve_file = ascii ''a.xml'', ve_line = Num 1, ve_message = ascii ''b.xml:2: bad''\<rparr>"
  by (simp add: string_defs number_defs parser_defs)

section \<open>The two validation operations\<close>

lemma unlinkSync_commands:
  "unlinkSync p (w\<lparr>commands := c\<rparr>) =
     (fst (unlinkSync p w), (snd (unlinkSync p w))\<lparr>commands := c\<rparr>)"
  by (simp add: unlinkSync_def)

lemma cleanupTempFiles_commands:
  "cleanupTempFiles this p1 p2 (w\<lparr>commands := c\<rparr>) =
     (fst (cleanupTempFiles this p1 p2 w), (snd (cleanupTempFiles this p1 p2 w))\<lparr>commands := c\<rparr>)"
  by (simp add: cleanupTempFiles_def unlinkSync_commands split: prod.splits sum.splits)

lemma cleanupTempFiles_again:
  assumes "cleanupTempFiles this p1 p2 w = (Inl e, w')"
  shows "\<exists>e'. fst (cleanupTempFiles this p1 p2 w') = Inl e'"
  using assms
  by (auto simp: cleanupTempFiles_def unlinkSync_def split: if_splits prod.splits sum.splits)

lemma writeTempFile_eq:
  "writeTempFile E b w =
     (case write_error E (writes w) of
        Some (Open_failed e) \<Rightarrow>
          (Inl e, w\<lparr>clock_reads := Suc (clock_reads w), writes := Suc (writes w)\<rparr>)
      | Some (Write_failed e) \<Rightarrow>
          (Inl e,
           w\<lparr>clock_reads := Suc (clock_reads w),
             files := (files w)(tmpdir E @ ascii ''/'' @ number_toString (now E (clock_reads w)) \<mapsto> []),
             writes := Suc (writes w)\<rparr>)
      | None \<Rightarrow>
          (Inr (tmpdir E @ ascii ''/'' @ number_toString (now E (clock_reads w))),
           w\<lparr>clock_reads := Suc (clock_reads w),
             files := (files w)(tmpdir E @ ascii ''/'' @ number_toString (now E (clock_reads w)) \<mapsto> b),
             writes := Suc (writes w)\<rparr>))"
  by (simp add: writeTempFile_def date_now_def writeFileSync_def Let_def
        split: option.splits write_failure.splits)

lemma getTempPaths_throws_iff:
  "fst (getTempPaths E this w) = Inl e \<longleftrightarrow> first_write_failure E this w = Some e"
  by (cases "xsdPath this"; cases "xmlPath this")
     (auto simp: getTempPaths_def materialize_def writeTempFile_eq
        first_write_failure_def is_Buffer_def split: option.splits write_failure.splits)

lemma getTempPaths_commands:
  "commands (snd (getTempPaths E this w)) = commands w"
  by (cases "xsdPath this"; cases "xmlPath this")
     (auto simp: getTempPaths_def materialize_def writeTempFile_eq
        split: option.splits write_failure.splits)


lemma validateSync_throws:
  "fst (getTempPaths E this w) = Inl e \<Longrightarrow> fst (validateSync E this w) = Inl e"
  by (auto simp: validateSync_def split: prod.splits sum.splits)

lemma validate_rejects:
  "fst (getTempPaths E this w) = Inl e \<Longrightarrow> fst (validate E this w) = Rejected e"
  by (auto simp: validate_def split: prod.splits sum.splits)

lemma validateSync_failed:
  assumes "getTempPaths E this w = (Inr (p1, p2), w1)"
    and "execSync E (command p1 p2) w1 = (Some e, w2)"
    and "fst (cleanupTempFiles this p1 p2 w1) = Inr ()"
  shows "fst (validateSync E this w) = Inr (parseValidationErrors (Some e) None)"
proof -
  have "w2 = w1\<lparr>commands := commands w1 @ [command p1 p2]\<rparr>"
    using assms(2) by (simp add: execSync_def)
  then have "fst (cleanupTempFiles this p1 p2 w2) = Inr ()"
    using assms(3) by (simp add: cleanupTempFiles_commands)
  then show ?thesis using assms(1,2)
    by (auto simp: validateSync_def validateSync_catch_def split: prod.splits sum.splits)
qed

lemma validate_settles:
  assumes "getTempPaths E this w = (Inr (p1, p2), w1)"
    and "exec E (command p1 p2) w1 = ((error, stderr), w2)"
    and "fst (cleanupTempFiles this p1 p2 w1) = Inr ()"
  shows "fst (validate E this w) = Resolved (parseValidationErrors error (Some stderr))"
proof -
  have "w2 = w1\<lparr>commands := commands w1 @ [command p1 p2]\<rparr>"
    using assms(2) by (simp add: exec_def)
  then have "fst (cleanupTempFiles this p1 p2 w2) = Inr ()"
    using assms(3) by (simp add: cleanupTempFiles_commands)
  then show ?thesis using assms(1,2)
    by (auto simp: validate_def split: prod.splits sum.splits)
qed

lemma validateSync_failed_cleanup_throws:
  assumes "getTempPaths E this w = (Inr (p1, p2), w1)"
    and "execSync E (command p1 p2) w1 = (Some e, w2)"
    and "fst (cleanupTempFiles this p1 p2 w1) = Inl d"
  shows "fst (validateSync E this w) = Inl d"
proof -
  have "w2 = w1\<lparr>commands := commands w1 @ [command p1 p2]\<rparr>"
    using assms(2) by (simp add: execSync_def)
  then have "fst (cleanupTempFiles this p1 p2 w2) = Inl d"
    using assms(3) by (simp add: cleanupTempFiles_commands)
  then show ?thesis using assms(1,2)
    by (auto simp: validateSync_def validateSync_catch_def split: prod.splits sum.splits)
qed

lemma validate_cleanup_throws:
  assumes "getTempPaths E this w = (Inr (p1, p2), w1)"
    and "fst (cleanupTempFiles this p1 p2 w1) = Inl d"
  shows "fst (validate E this w) = Never_settled d"
proof -
  let ?w2 = "w1\<lparr>commands := commands w1 @ [command p1 p2]\<rparr>"
  have "snd (exec E (command p1 p2) w1) = ?w2" by (simp add: exec_def)
  moreover have "fst (cleanupTempFiles this p1 p2 ?w2) = Inl d"
    using assms(2) by (simp add: cleanupTempFiles_commands)
  ultimately show ?thesis using assms(1)
    by (auto simp: validate_def split: prod.splits sum.splits)
qed

text \<open>Two Buffers named in the same millisecond: one path for both, one file on disk,
  and a cleanup that deletes it and then finds nothing to delete.\<close>

lemma same_millisecond_example:
  "getTempPaths (same_millisecond_host outcome) two_buffers fresh_world
     = (Inr (ascii ''/tmp/1700000000000'', ascii ''/tmp/1700000000000''),
        \<lparr>files = [ascii ''/tmp/1700000000000'' \<mapsto> ascii_bytes ''<doc/>''],
         clock_reads = 2, writes = 2, commands = []\<rparr>)"
  "run (same_millisecond_host outcome) cmd = outcome"
  "fst (cleanupTempFiles two_buffers (ascii ''/tmp/1700000000000'') (ascii ''/tmp/1700000000000'')
          \<lparr>files = [ascii ''/tmp/1700000000000'' \<mapsto> ascii_bytes ''<doc/>''],
           clock_reads = 2, writes = 2, commands = []\<rparr>)
     = Inl (enoent (ascii ''/tmp/1700000000000''))"
    apply (simp add: world_defs example_defs string_defs)
   apply (simp add: world_defs example_defs)
  apply (simp add: cleanupTempFiles_def unlinkSync_def is_Buffer_def two_buffers_def)
  done

lemma two_paths_example:
  "getTempPaths (steady_host outcome) two_paths fresh_world
     = (Inr (ascii ''schema.xsd'', ascii ''doc.xml''), fresh_world)"
  "run (steady_host outcome) cmd = outcome"
  "fst (cleanupTempFiles two_paths (ascii ''schema.xsd'') (ascii ''doc.xml'') fresh_world) = Inr ()"
    apply (simp add: getTempPaths_def materialize_def two_paths_def)
   apply (simp add: steady_host_def)
  apply (simp add: cleanupTempFiles_def is_Buffer_def two_paths_def)
  done

text \<open>
  Claim C4, as the code has it. A write of a raw-content input that fails makes the
  blocking operation throw that error and the non-blocking one reject with it. A
  subprocess that could not be spawned does not. When the temporary files are then
  deleted without error, its error object goes to the diagnostic parser like that of any
  failed invocation, and the operation returns, or resolves with, what the parser makes
  of it. When deleting a temporary file throws, the blocking operation throws the error
  of the deletion and the promise of the non-blocking one is never settled.
\<close>

theorem write_failure_throws_spawn_failure_is_parsed:
  "(first_write_failure E this w = Some e \<longrightarrow>
      fst (validateSync E this w) = Inl e \<and> fst (validate E this w) = Rejected e)
   \<and> (getTempPaths E this w = (Inr (p1, p2), w1) \<and> run E (command p1 p2) = Spawn_failed e
        \<and> fst (cleanupTempFiles this p1 p2 w1) = Inr () \<longrightarrow>
      fst (validateSync E this w) = Inr (parseValidationErrors (Some e) None)
      \<and> fst (validate E this w) = Resolved (parseValidationErrors (Some e) (Some [])))
   \<and> (getTempPaths E this w = (Inr (p1, p2), w1) \<and> run E (command p1 p2) = Spawn_failed e
        \<and> fst (cleanupTempFiles this p1 p2 w1) = Inl d \<longrightarrow>
      fst (validateSync E this w) = Inl d \<and> fst (validate E this w) = Never_settled d)"
proof (intro conjI impI)
  assume "first_write_failure E this w = Some e"
  then have t: "fst (getTempPaths E this w) = Inl e" by (simp add: getTempPaths_throws_iff)
  from t show "fst (validateSync E this w) = Inl e" by (rule validateSync_throws)
  from t show "fst (validate E this w) = Rejected e" by (rule validate_rejects)
next
  assume a: "getTempPaths E this w = (Inr (p1, p2), w1) \<and> run E (command p1 p2) = Spawn_failed e
        \<and> fst (cleanupTempFiles this p1 p2 w1) = Inr ()"
  then have "execSync E (command p1 p2) w1 = (Some e, w1\<lparr>commands := commands w1 @ [command p1 p2]\<rparr>)"
    by (simp add: execSync_def)
  with a show "fst (validateSync E this w) = Inr (parseValidationErrors (Some e) None)"
    by (blast intro: validateSync_failed)
  from a have "exec E (command p1 p2) w1 = ((Some e, []), w1\<lparr>commands := commands w1 @ [command p1 p2]\<rparr>)"
    by (simp add: exec_def)
  with a show "fst (validate E this w) = Resolved (parseValidationErrors (Some e) (Some []))"
    by (blast intro: validate_settles)
next
  assume b: "getTempPaths E this w = (Inr (p1, p2), w1) \<and> run E (command p1 p2) = Spawn_failed e
        \<and> fst (cleanupTempFiles this p1 p2 w1) = Inl d"
  then have "execSync E (command p1 p2) w1 = (Some e, w1\<lparr>commands := commands w1 @ [command p1 p2]\<rparr>)"
    by (simp add: execSync_def)
  with b show "fst (validateSync E this w) = Inl d"
    by (blast intro: validateSync_failed_cleanup_throws)
  from b show "fst (validate E this w) = Never_settled d"
    by (blast intro: validate_cleanup_throws)
qed

text \<open>Claim C4 as amended, at a schema Buffer whose write fails with \<^verbatim>\<open>ENOSPC\<close>, at two
  paths with a shell that cannot be spawned, and at two Buffers named in the same
  millisecond with a shell that cannot be spawned.\<close>

theorem write_failure_throws_spawn_failure_is_parsed_witness:
  "first_write_failure
       ((steady_host (Exit_zero []))\<lparr>write_error := (\<lambda>k. Some (Write_failed enospc))\<rparr>)
       \<lparr>xsdPath = Buffer (ascii_bytes ''<schema/>''), xmlPath = Path (ascii ''doc.xml'')\<rparr>
       fresh_world = Some enospc
   \<and> fst (validateSync
       ((steady_host (Exit_zero []))\<lparr>write_error := (\<lambda>k. Some (Write_failed enospc))\<rparr>)
       \<lparr>xsdPath = Buffer (ascii_bytes ''<schema/>''), xmlPath = Path (ascii ''doc.xml'')\<rparr>
       fresh_world) = Inl enospc
   \<and> fst (validate
       ((steady_host (Exit_zero []))\<lparr>write_error := (\<lambda>k. Some (Write_failed enospc))\<rparr>)
       \<lparr>xsdPath = Buffer (ascii_bytes ''<schema/>''), xmlPath = Path (ascii ''doc.xml'')\<rparr>
       fresh_world) = Rejected enospc
   \<and> getTempPaths (steady_host (Spawn_failed spawn_enoent)) two_paths fresh_world
       = (Inr (ascii ''schema.xsd'', ascii ''doc.xml''), fresh_world)
   \<and> run (steady_host (Spawn_failed spawn_enoent))
       (command (ascii ''schema.xsd'') (ascii ''doc.xml'')) = Spawn_failed spawn_enoent
   \<and> fst (cleanupTempFiles two_paths (ascii ''schema.xsd'') (ascii ''doc.xml'') fresh_world)
       = Inr ()
   \<and> fst (validateSync (steady_host (Spawn_failed spawn_enoent)) two_paths fresh_world)
       = Inr (parseValidationErrors (Some spawn_enoent) None)
   \<and> fst (validate (steady_host (Spawn_failed spawn_enoent)) two_paths fresh_world)
       = Resolved (parseValidationErrors (Some spawn_enoent) (Some []))
   \<and> fst (getTempPaths (same_millisecond_host (Spawn_failed spawn_enoent)) two_buffers fresh_world)
       = Inr (ascii ''/tmp/1700000000000'', ascii ''/tmp/1700000000000'')
   \<and> fst (validateSync (same_millisecond_host (Spawn_failed spawn_enoent)) two_buffers fresh_world)
       = Inl (enoent (ascii ''/tmp/1700000000000''))
   \<and> fst (validate (same_millisecond_host (Spawn_failed spawn_enoent)) two_buffers fresh_world)
       = Never_settled (enoent (ascii ''/tmp/1700000000000''))"
  (is "?w \<and> ?ws \<and> ?wa \<and> ?g \<and> ?r \<and> ?c \<and> ?ss \<and> ?sa \<and> ?cg \<and> ?cs \<and> ?ca")
proof -
  have w: ?w by (simp add: first_write_failure_def is_Buffer_def steady_host_def fresh_world_def)
  have g: ?g by (rule two_paths_example)
  have r: ?r by (rule two_paths_example)
  have c: ?c by (rule two_paths_example)
  have cg: ?cg by (simp add: same_millisecond_example(1))
  from w write_failure_throws_spawn_failure_is_parsed
    [of "(steady_host (Exit_zero []))\<lparr>write_error := (\<lambda>k. Some (Write_failed enospc))\<rparr>"
        "\<lparr>xsdPath = Buffer (ascii_bytes ''<schema/>''), xmlPath = Path (ascii ''doc.xml'')\<rparr>"
        fresh_world enospc]
  have 1: "?ws \<and> ?wa" by blast
  from g r c write_failure_throws_spawn_failure_is_parsed
    [of "steady_host (Spawn_failed spawn_enoent)" two_paths fresh_world spawn_enoent
        "ascii ''schema.xsd''" "ascii ''doc.xml''" fresh_world]
  have 2: "?ss \<and> ?sa" by blast
  from same_millisecond_example(1,2) [of "Spawn_failed spawn_enoent"]
    same_millisecond_example(3)
    write_failure_throws_spawn_failure_is_parsed
    [of "same_millisecond_host (Spawn_failed spawn_enoent)" two_buffers fresh_world
        spawn_enoent "ascii ''/tmp/1700000000000''" "ascii ''/tmp/1700000000000''"
        "\<lparr>files = [ascii ''/tmp/1700000000000'' \<mapsto> ascii_bytes ''<doc/>''],
          clock_reads = 2, writes = 2, commands = []\<rparr>"
        "enoent (ascii ''/tmp/1700000000000'')"]
  have 3: "?cs \<and> ?ca" by blast
  from w g r c cg 1 2 3 show ?thesis by blast
qed

text \<open>
  Claim C4 as stated fails: with two paths and a shell that cannot be spawned, the
  blocking operation returns the empty error list and the non-blocking one resolves with
  it; neither throws or rejects.
\<close>

theorem spawn_failure_returns_result:
  "run (steady_host (Spawn_failed spawn_enoent))
       (command (ascii ''schema.xsd'') (ascii ''doc.xml'')) = Spawn_failed spawn_enoent
   \<and> fst (validateSync (steady_host (Spawn_failed spawn_enoent))
            \<lparr>xsdPath = Path (ascii ''schema.xsd''), xmlPath = Path (ascii ''doc.xml'')\<rparr>
            fresh_world) = Inr (Errors [])
   \<and> fst (validate (steady_host (Spawn_failed spawn_enoent))
            \<lparr>xsdPath = Path (ascii ''schema.xsd''), xmlPath = Path (ascii ''doc.xml'')\<rparr>
            fresh_world) = Resolved (Errors [])"
  by (simp add: world_defs example_defs string_defs number_defs parser_defs)


text \<open>
  Claim C5 fails on the code. The schema and the document are both Buffers, the first
  write goes through and the second fails with \<^verbatim>\<open>ENOSPC\<close>: both operations hand the
  error to the caller (thrown, rejected) and the temporary file of the schema is still
  on disk, beside the empty file the failed write left, since \<^verbatim>\<open>getTempPaths\<close> throws
  before any cleanup is reached.
\<close>

theorem temp_file_left_behind:
  "fst (validateSync ((steady_host (Exit_zero []))\<lparr>write_error := (\<lambda>k. if k = 1 then Some (Write_failed enospc) else None)\<rparr>)
          \<lparr>xsdPath = Buffer (ascii_bytes ''<schema/>''), xmlPath = Buffer (ascii_bytes ''<doc/>'')\<rparr>
          fresh_world) = Inl enospc
   \<and> files (snd (validateSync ((steady_host (Exit_zero []))\<lparr>write_error := (\<lambda>k. if k = 1 then Some (Write_failed enospc) else None)\<rparr>)
          \<lparr>xsdPath = Buffer (ascii_bytes ''<schema/>''), xmlPath = Buffer (ascii_bytes ''<doc/>'')\<rparr>
          fresh_world)) (ascii ''/tmp/1700000000000'') = Some (ascii_bytes ''<schema/>'')
   \<and> fst (validate ((steady_host (Exit_zero []))\<lparr>write_error := (\<lambda>k. if k = 1 then Some (Write_failed enospc) else None)\<rparr>)
          \<lparr>xsdPath = Buffer (ascii_bytes ''<schema/>''), xmlPath = Buffer (ascii_bytes ''<doc/>'')\<rparr>
          fresh_world) = Rejected enospc
   \<and> files (snd (validate ((steady_host (Exit_zero []))\<lparr>write_error := (\<lambda>k. if k = 1 then Some (Write_failed enospc) else None)\<rparr>)
          \<lparr>xsdPath = Buffer (ascii_bytes ''<schema/>''), xmlPath = Buffer (ascii_bytes ''<doc/>'')\<rparr>
          fresh_world)) (ascii ''/tmp/1700000000000'') = Some (ascii_bytes ''<schema/>'')
   \<and> files (snd (validateSync ((steady_host (Exit_zero []))\<lparr>write_error := (\<lambda>k. if k = 1 then Some (Write_failed enospc) else None)\<rparr>)
          \<lparr>xsdPath = Buffer (ascii_bytes ''<schema/>''), xmlPath = Buffer (ascii_bytes ''<doc/>'')\<rparr>
          fresh_world)) (ascii ''/tmp/1700000000001'') = Some []
   \<and> files (snd (validate ((steady_host (Exit_zero []))\<lparr>write_error := (\<lambda>k. if k = 1 then Some (Write_failed enospc) else None)\<rparr>)
          \<lparr>xsdPath = Buffer (ascii_bytes ''<schema/>''), xmlPath = Buffer (ascii_bytes ''<doc/>'')\<rparr>
          fresh_world)) (ascii ''/tmp/1700000000001'') = Some []"
  by (simp add: world_defs string_defs)

text \<open>
  Claim C6 fails on the code. The name of a temporary file is the clock reading in
  milliseconds. When both readings of a call with two Buffers fall in the same
  millisecond, the two paths are equal and one file is left, holding the document where
  the schema was written; and two calls with one Buffer each, the second starting in the
  world the first left, get the same path in the same millisecond.
\<close>

theorem same_millisecond_same_path:
  "getTempPaths ((steady_host (Exit_zero []))\<lparr>now := (\<lambda>k. 1700000000000)\<rparr>)
          \<lparr>xsdPath = Buffer (ascii_bytes ''<schema/>''), xmlPath = Buffer (ascii_bytes ''<doc/>'')\<rparr>
          fresh_world
     = (Inr (ascii ''/tmp/1700000000000'', ascii ''/tmp/1700000000000''),
        \<lparr>files = [ascii ''/tmp/1700000000000'' \<mapsto> ascii_bytes ''<doc/>''],
         clock_reads = 2, writes = 2, commands = []\<rparr>)
   \<and> fst (getTempPaths ((steady_host (Exit_zero []))\<lparr>now := (\<lambda>k. 1700000000000)\<rparr>)
          \<lparr>xsdPath = Path (ascii ''schema.xsd''), xmlPath = Buffer (ascii_bytes ''<a/>'')\<rparr>
          fresh_world)
     = Inr (ascii ''schema.xsd'', ascii ''/tmp/1700000000000'')
   \<and> fst (getTempPaths ((steady_host (Exit_zero []))\<lparr>now := (\<lambda>k. 1700000000000)\<rparr>)
          \<lparr>xsdPath = Path (ascii ''schema.xsd''), xmlPath = Buffer (ascii_bytes ''<b/>'')\<rparr>
          (snd (getTempPaths ((steady_host (Exit_zero []))\<lparr>now := (\<lambda>k. 1700000000000)\<rparr>)
            \<lparr>xsdPath = Path (ascii ''schema.xsd''), xmlPath = Buffer (ascii_bytes ''<a/>'')\<rparr>
            fresh_world)))
     = Inr (ascii ''schema.xsd'', ascii ''/tmp/1700000000000'')"
  by (simp add: world_defs string_defs)

lemma cleanupTempFiles_keeps_commands:
  "commands (snd (cleanupTempFiles this p1 p2 w)) = commands w"
  by (auto simp: cleanupTempFiles_def unlinkSync_def split: prod.splits sum.splits)

lemma validateSync_catch_keeps_commands:
  "commands (snd (validateSync_catch this p1 p2 e w)) = commands w"
  using cleanupTempFiles_keeps_commands [of this p1 p2 w]
  by (auto simp: validateSync_catch_def split: prod.splits sum.splits)

lemma validateSync_commands:
  assumes "getTempPaths E this w = (Inr (p1, p2), w1)"
  shows "commands (snd (validateSync E this w)) = commands w @ [command p1 p2]"
proof -
  let ?w2 = "w1\<lparr>commands := commands w1 @ [command p1 p2]\<rparr>"
  have c1: "commands w1 = commands w"
    using getTempPaths_commands [of E this w] assms by simp
  have x: "snd (execSync E (command p1 p2) w1) = ?w2" by (simp add: execSync_def)
  show ?thesis
  proof (cases "fst (execSync E (command p1 p2) w1)")
    case (Some e)
    then have "validateSync E this w = validateSync_catch this p1 p2 e ?w2"
      using assms x by (auto simp: validateSync_def split: prod.splits)
    then show ?thesis using c1 by (simp add: validateSync_catch_keeps_commands)
  next
    case None
    show ?thesis
    proof (cases "cleanupTempFiles this p1 p2 ?w2")
      case (Pair r w3)
      have c3: "commands w3 = commands ?w2"
        using cleanupTempFiles_keeps_commands [of this p1 p2 ?w2] Pair by simp
      show ?thesis
      proof (cases r)
        case (Inl e)
        then have "validateSync E this w = validateSync_catch this p1 p2 e w3"
          using assms x None Pair by (auto simp: validateSync_def split: prod.splits)
        then show ?thesis using c1 c3 by (simp add: validateSync_catch_keeps_commands)
      next
        case (Inr u)
        then have "validateSync E this w = (Inr Success, w3)"
          using assms x None Pair by (auto simp: validateSync_def split: prod.splits)
        then show ?thesis using c1 c3 by simp
      qed
    qed
  qed
qed

lemma validate_commands:
  assumes "getTempPaths E this w = (Inr (p1, p2), w1)"
  shows "commands (snd (validate E this w)) = commands w @ [command p1 p2]"
proof -
  let ?w2 = "w1\<lparr>commands := commands w1 @ [command p1 p2]\<rparr>"
  have c1: "commands w1 = commands w"
    using getTempPaths_commands [of E this w] assms by simp
  have x: "snd (exec E (command p1 p2) w1) = ?w2" by (simp add: exec_def)
  have c3: "commands (snd (cleanupTempFiles this p1 p2 ?w2)) = commands ?w2"
    by (rule cleanupTempFiles_keeps_commands)
  show ?thesis using assms x c1 c3
    by (auto simp: validate_def split: prod.splits sum.splits)
qed

lemma getTempPaths_Path:
  assumes "getTempPaths E this w = (Inr (p1, p2), w1)"
  shows "(xsdPath this = Path a \<longrightarrow> p1 = a) \<and> (xmlPath this = Path b \<longrightarrow> p2 = b)"
  using assms
  by (cases "xsdPath this"; cases "xmlPath this")
     (auto simp: getTempPaths_def materialize_def writeTempFile_eq
        split: option.splits write_failure.splits)

text \<open>
  Claim C7, as the code has it. The command line that either operation hands to the
  shell is \<^verbatim>\<open>xmllint --noout --schema\<close>, a space, the schema path, a space and the
  document path, each path embedded as it is: the command line holds no quoting
  character but those of the paths, and an input given as a path is embedded unchanged.
\<close>

theorem command_embeds_paths_verbatim:
  assumes "getTempPaths E this w = (Inr (p1, p2), w1)"
  shows "commands (snd (validateSync E this w))
           = commands w @ [ascii ''xmllint --noout --schema '' @ p1 @ ascii '' '' @ p2]
       \<and> commands (snd (validate E this w))
           = commands w @ [ascii ''xmllint --noout --schema '' @ p1 @ ascii '' '' @ p2]
       \<and> filter is_quoting (ascii ''xmllint --noout --schema '' @ p1 @ ascii '' '' @ p2)
           = filter is_quoting p1 @ filter is_quoting p2
       \<and> (xsdPath this = Path a \<longrightarrow> p1 = a) \<and> (xmlPath this = Path b \<longrightarrow> p2 = b)"
proof -
  have "filter is_quoting (ascii ''xmllint --noout --schema '') = []"
    and "filter is_quoting (ascii '' '') = []"
    by (simp_all add: ascii_def is_quoting_def)
  then have "filter is_quoting (ascii ''xmllint --noout --schema '' @ p1 @ ascii '' '' @ p2)
           = filter is_quoting p1 @ filter is_quoting p2"
    by simp
  then show ?thesis
    using validateSync_commands [OF assms] validate_commands [OF assms] getTempPaths_Path [OF assms]
    by (simp add: command_def)
qed

text \<open>Claim C7 as amended, at the schema path \<^verbatim>\<open>my schema.xsd\<close> and the document path
  \<^verbatim>\<open>doc.xml\<close>.\<close>

theorem command_embeds_paths_verbatim_witness:
  "getTempPaths (steady_host (Exit_zero []))
       \<lparr>xsdPath = Path (ascii ''my schema.xsd''), xmlPath = Path (ascii ''doc.xml'')\<rparr> fresh_world
     = (Inr (ascii ''my schema.xsd'', ascii ''doc.xml''), fresh_world)
   \<and> commands (snd (validateSync (steady_host (Exit_zero []))
       \<lparr>xsdPath = Path (ascii ''my schema.xsd''), xmlPath = Path (ascii ''doc.xml'')\<rparr> fresh_world))
     = [ascii ''xmllint --noout --schema my schema.xsd doc.xml'']
   \<and> commands (snd (validate (steady_host (Exit_zero []))
       \<lparr>xsdPath = Path (ascii ''my schema.xsd''), xmlPath = Path (ascii ''doc.xml'')\<rparr> fresh_world))
     = [ascii ''xmllint --noout --schema my schema.xsd doc.xml'']"
proof -
  have g: "getTempPaths (steady_host (Exit_zero []))
       \<lparr>xsdPath = Path (ascii ''my schema.xsd''), xmlPath = Path (ascii ''doc.xml'')\<rparr> fresh_world
     = (Inr (ascii ''my schema.xsd'', ascii ''doc.xml''), fresh_world)"
    by (simp add: getTempPaths_def materialize_def)
  have c: "commands fresh_world = []" by (simp add: fresh_world_def)
  have a: "ascii ''xmllint --noout --schema '' @ ascii ''my schema.xsd'' @ ascii '' '' @ ascii ''doc.xml''
           = ascii ''xmllint --noout --schema my schema.xsd doc.xml''"
    by (simp add: ascii_def)
  from command_embeds_paths_verbatim [OF g] show ?thesis
    unfolding c a using g by simp
qed

text \<open>
  Claim C7 as stated fails: the schema path \<^verbatim>\<open>my schema.xsd\<close> holds a space, and the
  command line of both operations is
  \<^verbatim>\<open>xmllint --noout --schema my schema.xsd doc.xml\<close>, with no quote and no backslash.
\<close>

theorem path_with_space_unquoted:
  "space \<in> set (ascii ''my schema.xsd'')
   \<and> commands (snd (validateSync (steady_host (Exit_zero []))
       \<lparr>xsdPath = Path (ascii ''my schema.xsd''), xmlPath = Path (ascii ''doc.xml'')\<rparr> fresh_world))
     = [ascii ''xmllint --noout --schema my schema.xsd doc.xml'']
   \<and> commands (snd (validate (steady_host (Exit_zero []))
       \<lparr>xsdPath = Path (ascii ''my schema.xsd''), xmlPath = Path (ascii ''doc.xml'')\<rparr> fresh_world))
     = [ascii ''xmllint --noout --schema my schema.xsd doc.xml'']
   \<and> filter is_quoting (ascii ''xmllint --noout --schema my schema.xsd doc.xml'') = []"
  by (simp add: world_defs string_defs is_quoting_def)


lemma validateSync_zero_exit:
  assumes "getTempPaths E this w = (Inr (p1, p2), w1)"
    and "run E (command p1 p2) = Exit_zero s"
  shows "fst (validateSync E this w) = Inr Success \<or> (\<exists>e. fst (validateSync E this w) = Inl e)"
proof -
  let ?w2 = "w1\<lparr>commands := commands w1 @ [command p1 p2]\<rparr>"
  have x: "execSync E (command p1 p2) w1 = (None, ?w2)"
    using assms(2) by (simp add: execSync_def)
  show ?thesis
  proof (cases "cleanupTempFiles this p1 p2 ?w2")
    case (Pair r w3)
    show ?thesis
    proof (cases r)
      case (Inr u)
      then show ?thesis using assms(1) x Pair by (simp add: validateSync_def)
    next
      case (Inl e)
      then obtain e' where "fst (cleanupTempFiles this p1 p2 w3) = Inl e'"
        using cleanupTempFiles_again [of this p1 p2 ?w2 e w3] Pair by auto
      then have "fst (validateSync_catch this p1 p2 e w3) = Inl e'"
        by (auto simp: validateSync_catch_def split: prod.splits sum.splits)
      then show ?thesis using assms(1) x Pair Inl by (simp add: validateSync_def)
    qed
  qed
qed

lemma validateSync_zero_exit_clean:
  assumes "getTempPaths E this w = (Inr (p1, p2), w1)"
    and "run E (command p1 p2) = Exit_zero s"
    and "fst (cleanupTempFiles this p1 p2 w1) = Inr ()"
  shows "fst (validateSync E this w) = Inr Success"
proof -
  let ?w2 = "w1\<lparr>commands := commands w1 @ [command p1 p2]\<rparr>"
  have x: "execSync E (command p1 p2) w1 = (None, ?w2)"
    using assms(2) by (simp add: execSync_def)
  have "fst (cleanupTempFiles this p1 p2 ?w2) = Inr ()"
    using assms(3) by (simp add: cleanupTempFiles_commands)
  then show ?thesis using assms(1) x
    by (auto simp: validateSync_def split: prod.splits sum.splits)
qed

lemma zero_exit_example:
  "getTempPaths (steady_host (Exit_zero (ascii ''doc.xml:4: bad'')))
       \<lparr>xsdPath = Path (ascii ''schema.xsd''), xmlPath = Path (ascii ''doc.xml'')\<rparr> fresh_world
     = (Inr (ascii ''schema.xsd'', ascii ''doc.xml''), fresh_world)"
  "run (steady_host (Exit_zero (ascii ''doc.xml:4: bad'')))
       (command (ascii ''schema.xsd'') (ascii ''doc.xml'')) = Exit_zero (ascii ''doc.xml:4: bad'')"
  "fst (cleanupTempFiles \<lparr>xsdPath = Path (ascii ''schema.xsd''), xmlPath = Path (ascii ''doc.xml'')\<rparr>
            (ascii ''schema.xsd'') (ascii ''doc.xml'') fresh_world) = Inr ()"
  "parseValidationErrors None (Some (ascii ''doc.xml:4: bad''))
     = Errors [\<lparr>ve_file = ascii ''doc.xml'', ve_line = Num 4, ve_message = ascii ''bad''\<rparr>]"
     apply (simp add: getTempPaths_def materialize_def)
    apply (simp add: steady_host_def)
   apply (simp add: cleanupTempFiles_def is_Buffer_def)
  apply (simp add: string_defs number_defs parser_defs)
  done

lemma validateSync_zero_exit_cleanup_throws:
  assumes "getTempPaths E this w = (Inr (p1, p2), w1)"
    and "run E (command p1 p2) = Exit_zero s"
    and "fst (cleanupTempFiles this p1 p2 w1) = Inl d"
  shows "\<exists>d'. fst (validateSync E this w) = Inl d'"
proof -
  let ?w2 = "w1\<lparr>commands := commands w1 @ [command p1 p2]\<rparr>"
  have x: "execSync E (command p1 p2) w1 = (None, ?w2)"
    using assms(2) by (simp add: execSync_def)
  have "fst (cleanupTempFiles this p1 p2 ?w2) = Inl d"
    using assms(3) by (simp add: cleanupTempFiles_commands)
  then obtain w3 where c: "cleanupTempFiles this p1 p2 ?w2 = (Inl d, w3)"
    by (cases "cleanupTempFiles this p1 p2 ?w2") auto
  then obtain d' where "fst (cleanupTempFiles this p1 p2 w3) = Inl d'"
    using cleanupTempFiles_again by blast
  then have "fst (validateSync_catch this p1 p2 d w3) = Inl d'"
    by (auto simp: validateSync_catch_def split: prod.splits sum.splits)
  then show ?thesis using assms(1) x c by (simp add: validateSync_def)
qed

text \<open>
  Claim C10, as the code has it. When the subprocess exits with status zero, having
  written \<open>s\<close> to its error stream, the blocking operation never returns an error list.
  When the temporary files are then deleted without error, it returns the success
  marker, while the non-blocking operation resolves with what the parser makes of \<open>s\<close>;
  and there is such an invocation where the blocking operation returns the success
  marker and the non-blocking one resolves with a non-empty error list. When deleting a
  temporary file throws, the blocking operation throws and the promise of the
  non-blocking one is never settled.
\<close>

theorem zero_exit_modes_differ:
  "(getTempPaths E this w = (Inr (p1, p2), w1) \<and> run E (command p1 p2) = Exit_zero s \<longrightarrow>
      (\<forall>errors. fst (validateSync E this w) \<noteq> Inr (Errors errors))
      \<and> (fst (cleanupTempFiles this p1 p2 w1) = Inr () \<longrightarrow>
           fst (validateSync E this w) = Inr Success
           \<and> fst (validate E this w) = Resolved (parseValidationErrors None (Some s)))
      \<and> (fst (cleanupTempFiles this p1 p2 w1) = Inl d \<longrightarrow>
           (\<exists>d'. fst (validateSync E this w) = Inl d')
           \<and> fst (validate E this w) = Never_settled d))
   \<and> (\<exists>E' this' w' p1' p2' w1' s' errors.
         getTempPaths E' this' w' = (Inr (p1', p2'), w1') \<and> run E' (command p1' p2') = Exit_zero s'
         \<and> fst (validateSync E' this' w') = Inr Success
         \<and> fst (validate E' this' w') = Resolved (Errors errors) \<and> errors \<noteq> [])"
proof -
  have never: "fst (validateSync E this w) \<noteq> Inr (Errors errors)"
    if "getTempPaths E this w = (Inr (p1, p2), w1)" "run E (command p1 p2) = Exit_zero s"
    for errors
    using validateSync_zero_exit [OF that] by auto
  have clean: "fst (validateSync E this w) = Inr Success
      \<and> fst (validate E this w) = Resolved (parseValidationErrors None (Some s))"
    if a: "getTempPaths E this w = (Inr (p1, p2), w1)" "run E (command p1 p2) = Exit_zero s"
      and c: "fst (cleanupTempFiles this p1 p2 w1) = Inr ()"
  proof
    show "fst (validateSync E this w) = Inr Success"
      using a c by (rule validateSync_zero_exit_clean)
    have "exec E (command p1 p2) w1
        = ((None, s), w1\<lparr>commands := commands w1 @ [command p1 p2]\<rparr>)"
      using a(2) by (simp add: exec_def)
    then show "fst (validate E this w) = Resolved (parseValidationErrors None (Some s))"
      using a(1) c by (blast intro: validate_settles)
  qed
  have throws: "(\<exists>d'. fst (validateSync E this w) = Inl d')
      \<and> fst (validate E this w) = Never_settled d"
    if a: "getTempPaths E this w = (Inr (p1, p2), w1)" "run E (command p1 p2) = Exit_zero s"
      and c: "fst (cleanupTempFiles this p1 p2 w1) = Inl d"
    using validateSync_zero_exit_cleanup_throws [OF a c] validate_cleanup_throws [OF a(1) c]
    by simp
  let ?E = "steady_host (Exit_zero (ascii ''doc.xml:4: bad''))"
  let ?v = "\<lparr>xsdPath = Path (ascii ''schema.xsd''), xmlPath = Path (ascii ''doc.xml'')\<rparr>"
  let ?r = "\<lparr>ve_file = ascii ''doc.xml'', ve_line = Num 4, ve_message = ascii ''bad''\<rparr>"
  have "exec ?E (command (ascii ''schema.xsd'') (ascii ''doc.xml'')) fresh_world
      = ((None, ascii ''doc.xml:4: bad''),
         fresh_world\<lparr>commands := commands fresh_world @ [command (ascii ''schema.xsd'') (ascii ''doc.xml'')]\<rparr>)"
    by (simp add: exec_def zero_exit_example(2))
  then have "fst (validate ?E ?v fresh_world) = Resolved (Errors [?r])"
    using validate_settles [OF zero_exit_example(1) _ zero_exit_example(3)]
    by (simp add: zero_exit_example(4))
  moreover have "fst (validateSync ?E ?v fresh_world) = Inr Success"
    by (rule validateSync_zero_exit_clean [OF zero_exit_example(1,2,3)])
  ultimately have ex: "\<exists>E' this' w' p1' p2' w1' s' errors.
         getTempPaths E' this' w' = (Inr (p1', p2'), w1') \<and> run E' (command p1' p2') = Exit_zero s'
         \<and> fst (validateSync E' this' w') = Inr Success
         \<and> fst (validate E' this' w') = Resolved (Errors errors) \<and> errors \<noteq> []"
    using zero_exit_example(1,2) by blast
  from never clean throws ex show ?thesis by blast
qed

text \<open>Claim C10 as amended, at two paths and a subprocess that exits with status zero
  after writing \<^verbatim>\<open>doc.xml:4: bad\<close> to its error stream, and at two Buffers named in the
  same millisecond and a subprocess that exits with status zero.\<close>

theorem zero_exit_modes_differ_witness:
  "getTempPaths (steady_host (Exit_zero (ascii ''doc.xml:4: bad'')))
       \<lparr>xsdPath = Path (ascii ''schema.xsd''), xmlPath = Path (ascii ''doc.xml'')\<rparr> fresh_world
     = (Inr (ascii ''schema.xsd'', ascii ''doc.xml''), fresh_world)
   \<and> run (steady_host (Exit_zero (ascii ''doc.xml:4: bad'')))
       (command (ascii ''schema.xsd'') (ascii ''doc.xml'')) = Exit_zero (ascii ''doc.xml:4: bad'')
   \<and> fst (cleanupTempFiles \<lparr>xsdPath = Path (ascii ''schema.xsd''), xmlPath = Path (ascii ''doc.xml'')\<rparr>
            (ascii ''schema.xsd'') (ascii ''doc.xml'') fresh_world) = Inr ()
   \<and> fst (validateSync (steady_host (Exit_zero (ascii ''doc.xml:4: bad'')))
       \<lparr>xsdPath = Path (ascii ''schema.xsd''), xmlPath = Path (ascii ''doc.xml'')\<rparr> fresh_world)
     = Inr Success
   \<and> fst (validate (steady_host (Exit_zero (ascii ''doc.xml:4: bad'')))
       \<lparr>xsdPath = Path (ascii ''schema.xsd''), xmlPath = Path (ascii ''doc.xml'')\<rparr> fresh_world)
     = Resolved (Errors [\<lparr>ve_file = ascii ''doc.xml'', ve_line = Num 4, ve_message = ascii ''bad''\<rparr>])
   \<and> fst (getTempPaths (same_millisecond_host (Exit_zero [])) two_buffers fresh_world)
     = Inr (ascii ''/tmp/1700000000000'', ascii ''/tmp/1700000000000'')
   \<and> (\<exists>d'. fst (validateSync (same_millisecond_host (Exit_zero [])) two_buffers fresh_world) = Inl d')
   \<and> fst (validate (same_millisecond_host (Exit_zero [])) two_buffers fresh_world)
     = Never_settled (enoent (ascii ''/tmp/1700000000000''))"
  using zero_exit_example
    zero_exit_modes_differ [of "steady_host (Exit_zero (ascii ''doc.xml:4: bad''))"
      "\<lparr>xsdPath = Path (ascii ''schema.xsd''), xmlPath = Path (ascii ''doc.xml'')\<rparr>" fresh_world
      "ascii ''schema.xsd''" "ascii ''doc.xml''" fresh_world "ascii ''doc.xml:4: bad''"]
    same_millisecond_example(1,2) [of "Exit_zero []"] same_millisecond_example(3)
    zero_exit_modes_differ [of "same_millisecond_host (Exit_zero [])" two_buffers fresh_world
      "ascii ''/tmp/1700000000000''" "ascii ''/tmp/1700000000000''"
      "\<lparr>files = [ascii ''/tmp/1700000000000'' \<mapsto> ascii_bytes ''<doc/>''],
        clock_reads = 2, writes = 2, commands = []\<rparr>"
      "[]" "enoent (ascii ''/tmp/1700000000000'')"]
  by simp

text \<open>
  Claim C10 as stated fails: the schema and the document are both Buffers, named in the
  same millisecond, and the subprocess exits with status zero. The cleanup of the
  \<^verbatim>\<open>try\<close> block deletes the one file and throws \<^verbatim>\<open>ENOENT\<close> on the second deletion, the
  cleanup of the \<^verbatim>\<open>catch\<close> block throws it again: the blocking operation throws
  instead of returning the success marker, and the promise of the non-blocking one is
  never settled.
\<close>

theorem zero_exit_cleanup_throws:
  "run (same_millisecond_host (Exit_zero [])) (command (ascii ''/tmp/1700000000000'')
       (ascii ''/tmp/1700000000000'')) = Exit_zero []
   \<and> fst (validateSync (same_millisecond_host (Exit_zero [])) two_buffers fresh_world)
       = Inl (enoent (ascii ''/tmp/1700000000000''))
   \<and> fst (validate (same_millisecond_host (Exit_zero [])) two_buffers fresh_world)
       = Never_settled (enoent (ascii ''/tmp/1700000000000''))"
  by (simp add: world_defs example_defs string_defs)

section \<open>A non-zero exit and the success marker\<close>

section \<open>A non-zero exit and the success marker\<close>

lemma trim_Nil_list_all: "trim t = [] \<longleftrightarrow> list_all is_white_space t"
  by (simp add: trim_Nil_iff list_all_iff)

lemma command_failed_not_blank: "\<not> list_all is_white_space (ascii ''Command failed: '' @ rest)"
  by (simp add: ascii_def is_white_space_def is_line_terminator_def)

lemma parse_message:
  assumes "err_message e = Some m" "\<not> list_all is_white_space m"
  shows "parseValidationErrors (Some e) stderr
           = Errors (filter keep (map parse_line (split_newline (trim m))))"
proof -
  have "m \<noteq> []" using assms(2) by auto
  then have "validationErrors (Some e) stderr = m"
    using assms(1) by (simp add: validationErrors_def)
  then show ?thesis using assms(2)
    by (simp add: parseValidationErrors_def trim_Nil_list_all Let_def)
qed

text \<open>A line in which no marker starts does not match the pattern.\<close>

lemma group1_from_None:
  "(\<And>i. i \<le> k \<Longrightarrow> marker_at (drop i s) = None) \<Longrightarrow> group1_from k s = None"
proof (induction k)
  case 0
  then have "marker_at (drop 0 s) = None" by blast
  then show ?case by (subst group1_from.simps) simp
next
  case (Suc k)
  have "marker_at (drop (Suc k) s) = None" using Suc.prems by blast
  moreover have "group1_from k s = None" using Suc by simp
  ultimately show ?case by (subst group1_from.simps) simp
qed

lemma match_here_None: "\<not> contains_marker s \<Longrightarrow> match_here s = None"
  unfolding match_here_def
  by (rule group1_from_None) (simp add: no_marker_in_suffix suffix_drop)

lemma contains_marker_Cons: "contains_marker s \<Longrightarrow> contains_marker (c # s)"
  by (simp add: contains_marker_def)

lemma regex_match_None: "\<not> contains_marker l \<Longrightarrow> regex_match l = None"
proof (induction l)
  case Nil
  then show ?case by (simp add: match_here_None)
next
  case (Cons c s)
  then have "\<not> contains_marker s" using contains_marker_Cons by blast
  then show ?case using Cons by (simp add: match_here_None)
qed

lemma parse_line_no_marker:
  "\<not> contains_marker l \<Longrightarrow> parse_line l = \<lparr>ve_file = [], ve_line = Num 0, ve_message = []\<rparr>"
  by (simp add: parse_line_def regex_match_None)

lemma command_failed_parses_to_nothing:
  "parseValidationErrors (Some command_failed_sync) None = Errors []"
  "parseValidationErrors (Some command_failed_async) (Some []) = Errors []"
proof -
  let ?m = "ascii ''Command failed: xmllint --noout --schema schema.xsd doc.xml''"
  have nb: "\<not> list_all is_white_space ?m" "\<not> list_all is_white_space (?m @ [newline])"
    by (simp_all add: ascii_def is_white_space_def is_line_terminator_def)
  have t: "trim ?m = ?m" "trim (?m @ [newline]) = ?m"
    by (simp_all add: string_defs)
  have s: "split_newline ?m = [?m]" by (simp add: ascii_def newline_def)
  have "\<not> contains_marker ?m" by (simp add: string_defs marker_defs)
  then have k: "\<not> keep (parse_line ?m)" by (simp add: parse_line_no_marker keep_def)
  have "err_message command_failed_sync = Some ?m" by (simp add: command_failed_sync_def)
  from parse_message [OF this nb(1)]
  show "parseValidationErrors (Some command_failed_sync) None = Errors []"
    using k by (simp only: t s list.map filter.simps if_False)
  have "err_message command_failed_async = Some (?m @ [newline])"
    by (simp add: command_failed_async_def)
  from parse_message [OF this nb(2)]
  show "parseValidationErrors (Some command_failed_async) (Some []) = Errors []"
    using k by (simp only: t s list.map filter.simps if_False)
qed

lemma nonzero_exit_never_success:
  assumes "getTempPaths E this w = (Inr (p1, p2), w1)"
    and "run E (command p1 p2) = Exit_nonzero e s"
    and "err_message e = Some m" "\<not> list_all is_white_space m"
  shows "fst (validateSync E this w) \<noteq> Inr Success"
    and "fst (validate E this w) \<noteq> Resolved Success"
    and "fst (cleanupTempFiles this p1 p2 w1) = Inr () \<Longrightarrow>
         fst (validateSync E this w) = Inr (parseValidationErrors (Some e) None)
         \<and> fst (validate E this w) = Resolved (parseValidationErrors (Some e) (Some s))"
proof -
  let ?w2 = "w1\<lparr>commands := commands w1 @ [command p1 p2]\<rparr>"
  have xs: "execSync E (command p1 p2) w1 = (Some e, ?w2)"
    using assms(2) by (simp add: execSync_def)
  have xa: "exec E (command p1 p2) w1 = ((Some e, s), ?w2)"
    using assms(2) by (simp add: exec_def)
  have ps: "parseValidationErrors (Some e) None \<noteq> Success"
    and pa: "parseValidationErrors (Some e) (Some s) \<noteq> Success"
    using parse_message [OF assms(3,4)] by simp_all
  show clean: "fst (validateSync E this w) = Inr (parseValidationErrors (Some e) None)
         \<and> fst (validate E this w) = Resolved (parseValidationErrors (Some e) (Some s))"
    if "fst (cleanupTempFiles this p1 p2 w1) = Inr ()"
    using validateSync_failed [OF assms(1) xs that] validate_settles [OF assms(1) xa that]
    by simp
  show "fst (validateSync E this w) \<noteq> Inr Success"
  proof (cases "fst (cleanupTempFiles this p1 p2 w1)")
    case (Inl d)
    then show ?thesis using validateSync_failed_cleanup_throws [OF assms(1) xs] by simp
  next
    case (Inr u)
    then show ?thesis using clean ps by simp
  qed
  show "fst (validate E this w) \<noteq> Resolved Success"
  proof (cases "fst (cleanupTempFiles this p1 p2 w1)")
    case (Inl d)
    then show ?thesis using validate_cleanup_throws [OF assms(1)] by simp
  next
    case (Inr u)
    then show ?thesis using clean pa by simp
  qed
qed

text \<open>
  Claim C8, as the code has it. The parser returns the success marker exactly when the
  selected text is empty or white space only. The selected text is the message of the
  error object whenever that message is not empty, so an error object whose message is
  not blank, as the one of a failed command is (it starts with \<^verbatim>\<open>Command failed: \<close>),
  gets an error list from the parser, whatever the error stream holds. A subprocess that
  exits with a non-zero status therefore never gives the success marker, in either
  operation: when the temporary files are deleted without error, the operation returns,
  or resolves with, the error list parsed from the message.
\<close>

theorem success_iff_blank_text:
  "(parseValidationErrors error stderr = Success
      \<longleftrightarrow> list_all is_white_space (validationErrors error stderr))
   \<and> (err_message e = Some m \<and> \<not> list_all is_white_space m \<longrightarrow>
        (\<exists>errors. parseValidationErrors (Some e) stderr = Errors errors))
   \<and> (err_message e = Some (ascii ''Command failed: '' @ rest) \<longrightarrow>
        (\<exists>errors. parseValidationErrors (Some e) stderr = Errors errors))
   \<and> (getTempPaths E this w = (Inr (p1, p2), w1) \<and> run E (command p1 p2) = Exit_nonzero e s
        \<and> err_message e = Some m \<and> \<not> list_all is_white_space m \<longrightarrow>
        fst (validateSync E this w) \<noteq> Inr Success
        \<and> fst (validate E this w) \<noteq> Resolved Success
        \<and> (fst (cleanupTempFiles this p1 p2 w1) = Inr () \<longrightarrow>
             (\<exists>errors. fst (validateSync E this w) = Inr (Errors errors))
             \<and> (\<exists>errors. fst (validate E this w) = Resolved (Errors errors))))"
proof (intro conjI)
  show "parseValidationErrors error stderr = Success
      \<longleftrightarrow> list_all is_white_space (validationErrors error stderr)"
    by (simp add: parseValidationErrors_def trim_Nil_list_all Let_def)
  show "err_message e = Some m \<and> \<not> list_all is_white_space m \<longrightarrow>
        (\<exists>errors. parseValidationErrors (Some e) stderr = Errors errors)"
    using parse_message [of e m stderr] by simp
  show "err_message e = Some (ascii ''Command failed: '' @ rest) \<longrightarrow>
        (\<exists>errors. parseValidationErrors (Some e) stderr = Errors errors)"
    using parse_message [of e "ascii ''Command failed: '' @ rest" stderr, OF _ command_failed_not_blank]
    by simp
  show "getTempPaths E this w = (Inr (p1, p2), w1) \<and> run E (command p1 p2) = Exit_nonzero e s
        \<and> err_message e = Some m \<and> \<not> list_all is_white_space m \<longrightarrow>
        fst (validateSync E this w) \<noteq> Inr Success
        \<and> fst (validate E this w) \<noteq> Resolved Success
        \<and> (fst (cleanupTempFiles this p1 p2 w1) = Inr () \<longrightarrow>
             (\<exists>errors. fst (validateSync E this w) = Inr (Errors errors))
             \<and> (\<exists>errors. fst (validate E this w) = Resolved (Errors errors)))"
  proof (intro impI, elim conjE)
    assume a: "getTempPaths E this w = (Inr (p1, p2), w1)"
      "run E (command p1 p2) = Exit_nonzero e s"
      "err_message e = Some m" "\<not> list_all is_white_space m"
    show "fst (validateSync E this w) \<noteq> Inr Success
        \<and> fst (validate E this w) \<noteq> Resolved Success
        \<and> (fst (cleanupTempFiles this p1 p2 w1) = Inr () \<longrightarrow>
             (\<exists>errors. fst (validateSync E this w) = Inr (Errors errors))
             \<and> (\<exists>errors. fst (validate E this w) = Resolved (Errors errors)))"
      using nonzero_exit_never_success [OF a] parse_message [OF a(3,4)] by simp
  qed
qed

text \<open>Claim C8 as amended: at no error object and an error stream of a space and a line
  feed; and at two paths and a command that exits with a non-zero status and writes
  nothing.\<close>

theorem success_iff_blank_text_witness:
  "list_all is_white_space (validationErrors None (Some [space, newline]))
   \<and> parseValidationErrors None (Some [space, newline]) = Success
   \<and> err_message command_failed_sync
       = Some (ascii ''Command failed: '' @ ascii ''xmllint --noout --schema schema.xsd doc.xml'')
   \<and> \<not> list_all is_white_space
          (ascii ''Command failed: '' @ ascii ''xmllint --noout --schema schema.xsd doc.xml'')
   \<and> parseValidationErrors (Some command_failed_sync) None \<noteq> Success
   \<and> getTempPaths (steady_host (Exit_nonzero command_failed_sync [])) two_paths fresh_world
       = (Inr (ascii ''schema.xsd'', ascii ''doc.xml''), fresh_world)
   \<and> run (steady_host (Exit_nonzero command_failed_sync []))
       (command (ascii ''schema.xsd'') (ascii ''doc.xml'')) = Exit_nonzero command_failed_sync []
   \<and> fst (cleanupTempFiles two_paths (ascii ''schema.xsd'') (ascii ''doc.xml'') fresh_world)
       = Inr ()
   \<and> fst (validateSync (steady_host (Exit_nonzero command_failed_sync [])) two_paths fresh_world)
       \<noteq> Inr Success
   \<and> fst (validate (steady_host (Exit_nonzero command_failed_sync [])) two_paths fresh_world)
       \<noteq> Resolved Success"
  (is "?b \<and> ?bs \<and> ?m \<and> ?n \<and> ?p \<and> ?g \<and> ?r \<and> ?c \<and> ?vs \<and> ?va")
proof -
  let ?R = "ascii ''xmllint --noout --schema schema.xsd doc.xml''"
  let ?H = "steady_host (Exit_nonzero command_failed_sync [])"
  have b: ?b by (simp add: validationErrors_def string_defs)
  have m: ?m by (simp add: command_failed_sync_def ascii_def)
  have n: ?n by (rule command_failed_not_blank)
  have g: ?g by (rule two_paths_example)
  have r: ?r by (rule two_paths_example)
  have c: ?c by (rule two_paths_example)
  note blank = success_iff_blank_text
    [of None "Some [space, newline]" command_failed_sync "ascii ''Command failed: '' @ ?R" ?R
        ?H two_paths fresh_world "ascii ''schema.xsd''" "ascii ''doc.xml''" fresh_world "[]"]
  note failed = success_iff_blank_text
    [of None None command_failed_sync "ascii ''Command failed: '' @ ?R" ?R
        ?H two_paths fresh_world "ascii ''schema.xsd''" "ascii ''doc.xml''" fresh_world "[]"]
  have bs: ?bs using b blank [THEN conjunct1] by (rule iffD2 [rotated])
  have "\<exists>errors. parseValidationErrors (Some command_failed_sync) None = Errors errors"
    using failed [THEN conjunct2, THEN conjunct2, THEN conjunct1] m by (rule mp)
  then have p: ?p by auto
  have "?g \<and> ?r \<and> ?m \<and> ?n" by (intro conjI g r m n)
  with failed [THEN conjunct2, THEN conjunct2, THEN conjunct2]
  have "?vs \<and> ?va \<and> (?c \<longrightarrow>
      (\<exists>errors. fst (validateSync ?H two_paths fresh_world) = Inr (Errors errors))
      \<and> (\<exists>errors. fst (validate ?H two_paths fresh_world) = Resolved (Errors errors)))"
    by (rule mp)
  then have vs: ?vs and va: ?va by (rule conjunct1, elim conjE)
  show ?thesis by (intro conjI b bs m n p g r c vs va)
qed

text \<open>
  Claim C8 as stated fails: the command exits with a non-zero status and writes nothing
  to its error stream. The error object carries the message
  \<^verbatim>\<open>Command failed: xmllint --noout --schema schema.xsd doc.xml\<close>, which is the text the
  parser selects; no line of it parses, and both operations give the empty error list,
  not the success marker.
\<close>

theorem nonzero_exit_without_text_not_success:
  "run (steady_host (Exit_nonzero command_failed_sync []))
       (command (ascii ''schema.xsd'') (ascii ''doc.xml'')) = Exit_nonzero command_failed_sync []
   \<and> parseValidationErrors (Some command_failed_sync) None = Errors []
   \<and> fst (validateSync (steady_host (Exit_nonzero command_failed_sync [])) two_paths fresh_world)
       = Inr (Errors [])
   \<and> parseValidationErrors (Some command_failed_async) (Some []) = Errors []
   \<and> fst (validate (steady_host (Exit_nonzero command_failed_async [])) two_paths fresh_world)
       = Resolved (Errors [])"
proof (intro conjI)
  show "run (steady_host (Exit_nonzero command_failed_sync []))
       (command (ascii ''schema.xsd'') (ascii ''doc.xml'')) = Exit_nonzero command_failed_sync []"
    by (rule two_paths_example)
  show "parseValidationErrors (Some command_failed_sync) None = Errors []"
    by (rule command_failed_parses_to_nothing)
  show "parseValidationErrors (Some command_failed_async) (Some []) = Errors []"
    by (rule command_failed_parses_to_nothing)
  have "execSync (steady_host (Exit_nonzero command_failed_sync []))
          (command (ascii ''schema.xsd'') (ascii ''doc.xml'')) fresh_world
        = (Some command_failed_sync,
           fresh_world\<lparr>commands := commands fresh_world
              @ [command (ascii ''schema.xsd'') (ascii ''doc.xml'')]\<rparr>)"
    by (simp add: execSync_def two_paths_example(2))
  from validateSync_failed [OF two_paths_example(1) this two_paths_example(3)]
  show "fst (validateSync (steady_host (Exit_nonzero command_failed_sync [])) two_paths fresh_world)
       = Inr (Errors [])"
    by (simp only: command_failed_parses_to_nothing)
  have "exec (steady_host (Exit_nonzero command_failed_async []))
          (command (ascii ''schema.xsd'') (ascii ''doc.xml'')) fresh_world
        = ((Some command_failed_async, []),
           fresh_world\<lparr>commands := commands fresh_world
              @ [command (ascii ''schema.xsd'') (ascii ''doc.xml'')]\<rparr>)"
    by (simp add: exec_def two_paths_example(2))
  from validate_settles [OF two_paths_example(1) this two_paths_example(3)]
  show "fst (validate (steady_host (Exit_nonzero command_failed_async [])) two_paths fresh_world)
       = Resolved (Errors [])"
    by (simp only: command_failed_parses_to_nothing)
qed

end
